theory Spec2Isabelle
  imports Main
begin

section \<open>Strings\<close>

text \<open>
  The checkers work on JavaScript strings. They are modelled as lists of 8-bit
  characters: the code units 0 to 255 (ASCII and Latin-1). \<open>length\<close> counts code units,
  as the \<^verbatim>\<open>length\<close> property does. Code units above 255 are outside the model; where a
  table or a character range of the source needs one, the place says so.
\<close>

definition codeUnit :: "char \<Rightarrow> int" where
  "codeUnit c = of_char c"

text \<open>\<^verbatim>\<open>toLowerCase\<close> on the code units 0 to 255: A-Z and the Latin-1 capitals
  (U+00C0 to U+00DE without the multiplication sign U+00D7) move up by 32.\<close>

definition toLowerChar :: "char \<Rightarrow> char" where
  "toLowerChar c =
     (let n = codeUnit c
      in if (65 \<le> n \<and> n \<le> 90) \<or> (192 \<le> n \<and> n \<le> 222 \<and> n \<noteq> 215)
         then char_of (n + 32) else c)"

definition toLowerCase :: "string \<Rightarrow> string" where
  "toLowerCase s = map toLowerChar s"

fun startsWith :: "string \<Rightarrow> string \<Rightarrow> bool" where
  "startsWith s [] = True"
| "startsWith [] (p # ps) = False"
| "startsWith (c # cs) (p # ps) = (c = p \<and> startsWith cs ps)"

definition endsWith :: "string \<Rightarrow> string \<Rightarrow> bool" where
  "endsWith s p = startsWith (rev s) (rev p)"

text \<open>\<open>anywhere P s\<close>: \<open>P\<close> holds of the rest of \<open>s\<close> from some position on (the end
  included). It is the search loop of \<^verbatim>\<open>includes\<close> and of an unanchored \<^verbatim>\<open>RegExp.test\<close>.\<close>

fun anywhere :: "(string \<Rightarrow> bool) \<Rightarrow> string \<Rightarrow> bool" where
  "anywhere P [] = P []"
| "anywhere P (c # cs) = (P (c # cs) \<or> anywhere P cs)"

definition includes_str :: "string \<Rightarrow> string \<Rightarrow> bool" where
  "includes_str s p = anywhere (\<lambda>t. startsWith t p) s"

text \<open>\<^verbatim>\<open>s.split(d)\<close> for a one-character separator: never empty, \<^verbatim>\<open>"".split(d)\<close> is \<^verbatim>\<open>[""]\<close>.\<close>

fun split_on :: "char \<Rightarrow> string \<Rightarrow> string list" where
  "split_on d [] = [[]]"
| "split_on d (c # cs) =
     (if c = d then [] # split_on d cs
      else (case split_on d cs of [] \<Rightarrow> [[c]] | p # ps \<Rightarrow> (c # p) # ps))"

text \<open>\<^verbatim>\<open>parts.join(".")\<close>.\<close>

fun join_dot :: "string list \<Rightarrow> string" where
  "join_dot [] = []"
| "join_dot [p] = p"
| "join_dot (p # q # ps) = p @ ''.'' @ join_dot (q # ps)"

text \<open>\<^verbatim>\<open>parts[0]\<close>; \<^verbatim>\<open>undefined\<close> on an empty array is the empty string here (the arrays
  it is applied to come from \<open>split_on\<close> and are never empty).\<close>

definition first_part :: "string list \<Rightarrow> string" where
  "first_part ps = (case ps of [] \<Rightarrow> [] | p # _ \<Rightarrow> p)"

text \<open>\<^verbatim>\<open>parts[parts.length - 1]\<close>, with the same convention.\<close>

definition last_part :: "string list \<Rightarrow> string" where
  "last_part ps = (case rev ps of [] \<Rightarrow> [] | p # _ \<Rightarrow> p)"

text \<open>\<^verbatim>\<open>parts.slice(-2)\<close> and \<^verbatim>\<open>parts.slice(0, -2)\<close>.\<close>

definition slice_last2 :: "'a list \<Rightarrow> 'a list" where
  "slice_last2 ps = drop (length ps - 2) ps"

definition slice_but_last2 :: "'a list \<Rightarrow> 'a list" where
  "slice_but_last2 ps = take (length ps - 2) ps"

definition count_char :: "char \<Rightarrow> string \<Rightarrow> nat" where
  "count_char d s = length (filter (\<lambda>c. c = d) s)"

section \<open>Regular expressions\<close>

text \<open>
  A regular expression of the source is a matcher: applied to the text at some position
  it returns the rest of the text after every way of matching there (backtracking is the
  list of alternatives); the expression matches at that position when the list is not
  empty. The constructors below are the ones the source's expressions use.
\<close>

type_synonym matcher = "string \<Rightarrow> string list"

definition m_lit :: "string \<Rightarrow> matcher" where
  "m_lit p s = (if startsWith s p then [drop (length p) s] else [])"

text \<open>One character of a class.\<close>

definition m_class :: "(char \<Rightarrow> bool) \<Rightarrow> matcher" where
  "m_class P s = (case s of [] \<Rightarrow> [] | c # cs \<Rightarrow> if P c then [cs] else [])"

text \<open>A class repeated: \<^verbatim>\<open>{lo,hi}\<close> with \<open>Some hi\<close>, \<^verbatim>\<open>{lo,}\<close> with \<open>None\<close>.\<close>

definition m_rep :: "nat \<Rightarrow> nat option \<Rightarrow> (char \<Rightarrow> bool) \<Rightarrow> matcher" where
  "m_rep lo hi P s =
     (let avail = length (takeWhile P s);
          top = (case hi of None \<Rightarrow> avail | Some h \<Rightarrow> min h avail)
      in map (\<lambda>k. drop k s) (rev [lo..<Suc top]))"

definition m_seq :: "matcher \<Rightarrow> matcher \<Rightarrow> matcher" where
  "m_seq a b s = concat (map b (a s))"

definition m_alt :: "matcher \<Rightarrow> matcher \<Rightarrow> matcher" where
  "m_alt a b s = a s @ b s"

definition m_opt :: "matcher \<Rightarrow> matcher" where
  "m_opt a s = a s @ [s]"

text \<open>A lookahead \<^verbatim>\<open>(?=a)\<close> consumes nothing; \<^verbatim>\<open>$\<close> matches at the end only (no \<^verbatim>\<open>m\<close> flag
  in the source).\<close>

definition m_ahead :: "matcher \<Rightarrow> matcher" where
  "m_ahead a s = (if a s = [] then [] else [s])"

definition m_end :: matcher where
  "m_end s = (if s = [] then [s] else [])"

fun m_alts :: "matcher list \<Rightarrow> matcher" where
  "m_alts [] s = []"
| "m_alts (a # as) s = a s @ m_alts as s"

text \<open>\<^verbatim>\<open>(.)\1{n,}\<close>: a character that is not a line terminator, then itself \<open>n\<close> times or more.\<close>

definition lineTerminator :: "char \<Rightarrow> bool" where
  "lineTerminator c = (codeUnit c = 10 \<or> codeUnit c = 13)"

definition m_same_again :: "nat \<Rightarrow> matcher" where
  "m_same_again n s =
     (case s of [] \<Rightarrow> []
      | c # cs \<Rightarrow> if lineTerminator c then [] else m_rep n None (\<lambda>d. d = c) cs)"

definition regex_test :: "matcher \<Rightarrow> string \<Rightarrow> bool" where
  "regex_test r s = anywhere (\<lambda>t. r t \<noteq> []) s"

text \<open>
  An expression under the \<^verbatim>\<open>i\<close> flag is written here with its letters in lower case and
  tested on the lower-cased text: on the code units 0 to 255 two characters are equal
  under the flag exactly when their lower-case forms are equal, and lower-casing keeps
  the length and the line terminators.
\<close>

definition regex_test_i :: "matcher \<Rightarrow> string \<Rightarrow> bool" where
  "regex_test_i r s = regex_test r (toLowerCase s)"

text \<open>\<^verbatim>\<open>s.match(r)[0]\<close> for a global expression: the leftmost match, the longest one the
  greedy repetition gives there; \<open>None\<close> is \<^verbatim>\<open>null\<close>.\<close>

fun regex_first :: "matcher \<Rightarrow> string \<Rightarrow> string option" where
  "regex_first r [] = (case r [] of [] \<Rightarrow> None | t # _ \<Rightarrow> Some [])"
| "regex_first r (c # cs) =
     (case r (c # cs) of
        [] \<Rightarrow> regex_first r cs
      | t # _ \<Rightarrow> Some (take (length (c # cs) - length t) (c # cs)))"

definition isDigit :: "char \<Rightarrow> bool" where
  "isDigit c = (48 \<le> codeUnit c \<and> codeUnit c \<le> 57)"

definition isLower :: "char \<Rightarrow> bool" where
  "isLower c = (97 \<le> codeUnit c \<and> codeUnit c \<le> 122)"

definition isUpper :: "char \<Rightarrow> bool" where
  "isUpper c = (65 \<le> codeUnit c \<and> codeUnit c \<le> 90)"

definition isDot :: "char \<Rightarrow> bool" where
  "isDot c = (\<not> lineTerminator c)"

definition oneOf :: "string \<Rightarrow> char \<Rightarrow> bool" where
  "oneOf cs c = (c \<in> set cs)"

section \<open>Edit distance\<close>

text \<open>
  \<^verbatim>\<open>levenshteinDistance\<close> fills a matrix of \<open>len2 + 1\<close> rows and \<open>len1 + 1\<close> columns in place.
  The matrix is a list of rows; \<open>set_cell\<close> is the assignment \<^verbatim>\<open>matrix[j][i] = v\<close>. Every
  index the loops read or write is inside the matrix.
\<close>

definition set_cell :: "nat list list \<Rightarrow> nat \<Rightarrow> nat \<Rightarrow> nat \<Rightarrow> nat list list" where
  "set_cell m j i v = m[j := (m ! j)[i := v]]"

definition fill_cell :: "string \<Rightarrow> string \<Rightarrow> nat \<Rightarrow> nat \<Rightarrow> nat list list \<Rightarrow> nat list list" where
  "fill_cell str1 str2 j i m =
     (let indicator = (if str1 ! (i - 1) = str2 ! (j - 1) then 0 else 1)
      in set_cell m j i
           (min (min (m ! j ! (i - 1) + 1) (m ! (j - 1) ! i + 1))
                (m ! (j - 1) ! (i - 1) + indicator)))"

definition levenshteinDistance :: "string \<Rightarrow> string \<Rightarrow> nat" where
  "levenshteinDistance str1 str2 =
     (let len1 = length str1;
          len2 = length str2;
          matrix0 = replicate (len2 + 1) (replicate (len1 + 1) 0);
          matrix1 = fold (\<lambda>i m. set_cell m 0 i i) [0..<len1 + 1] matrix0;
          matrix2 = fold (\<lambda>j m. set_cell m j 0 j) [0..<len2 + 1] matrix1;
          matrix3 = fold (\<lambda>j m. fold (fill_cell str1 str2 j) [1..<len1 + 1] m)
                      [1..<len2 + 1] matrix2
      in matrix3 ! len2 ! len1)"

section \<open>The email checker: local detection\<close>

text \<open>
  An indicator of the source is a text pushed on \<^verbatim>\<open>indicators\<close>. Each constructor stands
  for one \<^verbatim>\<open>push\<close> of \<^verbatim>\<open>performLocalSpamDetection\<close>, with the values its template
  interpolates; the pictographs and the fixed wording of the texts are not carried.
\<close>

datatype indicator =
    InvalidEmailFormat                        \<comment> \<open>Invalid email format\<close>
  | DisposableDomain                          \<comment> \<open>Disposable/temporary email domain detected\<close>
  | CorporateImpersonation                    \<comment> \<open>Corporate impersonation attempt detected\<close>
  | TyposquattingConfirmed string string      \<comment> \<open>TYPOSQUATTING CONFIRMED: domain mimics legitimate\<close>
  | TyposquattingFuzzy string string nat      \<comment> \<open>TYPOSQUATTING (fuzzy match): name resembles name (distance)\<close>
  | ComboDomain string                        \<comment> \<open>Combo domain attack: Uses brand name\<close>
  | KeyboardProximity string string           \<comment> \<open>Keyboard proximity typo: name is one key away from name\<close>
  | Substitution string string                \<comment> \<open>Number/letter substitution: Uses char confusion (example)\<close>
  | HomoglyphAttack                           \<comment> \<open>Homoglyph attack detected: Non-Latin characters\<close>
  | HomoglyphInDomain string                  \<comment> \<open>Homoglyph attack in domain: name\<close>
  | SuspiciousKeywords "string list"          \<comment> \<open>Suspicious keywords detected: keywords\<close>
  | BECPattern string                         \<comment> \<open>Business Email Compromise (BEC) pattern: name\<close>
  | RandomNumbers string                      \<comment> \<open>Excessive random numbers: first match\<close>
  | RepeatingChars string                     \<comment> \<open>Repeating characters detected: first match\<close>
  | HighRiskTLD string                        \<comment> \<open>High-risk TLD: .tld\<close>
  | ShortenerDomain string                    \<comment> \<open>URL shortener domain: baseDomain\<close>
  | ComplexDomain                             \<comment> \<open>Overly complex domain structure\<close>
  | SubdomainConfusion                        \<comment> \<open>SUBDOMAIN CONFUSION: Domain contains ".com-" pattern\<close>
  | SuspiciousSuffix string                   \<comment> \<open>Suspicious domain suffix: Contains suffix\<close>
  | BrandInSubdomain                          \<comment> \<open>Brand impersonation in subdomain\<close>
  | HyphenBrokenBrand                         \<comment> \<open>Domain uses hyphens to break up brand names\<close>
  | ShortUsername                             \<comment> \<open>Extremely short username\<close>
  | LongUsername                              \<comment> \<open>Unusually long username\<close>
  | GenericUsername string                    \<comment> \<open>Generic username on unknown domain\<close>
  | ProDomainMismatch                         \<comment> \<open>Mismatch: Professional domain paired with suspicious username\<close>
  | Aliasing                                  \<comment> \<open>Email aliasing pattern detected\<close>
  | ConsecutiveSpecials                       \<comment> \<open>Multiple consecutive special characters in username\<close>
  | Punycode                                  \<comment> \<open>PUNYCODE DETECTED\<close>
  | IPAddressDomain                           \<comment> \<open>IP ADDRESS AS DOMAIN\<close>
  | ServiceIdPattern                          \<comment> \<open>Generic service ID pattern\<close>
  | ExpiredDomain string                      \<comment> \<open>Expired/parked domain indicator: pattern source\<close>
  | ExcessiveHyphens nat                      \<comment> \<open>Excessive hyphens in domain: count\<close>
  | MixedCase                                 \<comment> \<open>Mixed case in domain\<close>
  | VowellessDomain string                    \<comment> \<open>Vowel-less domain: name\<close>

text \<open>
  The two mutable locals of a scorer, \<^verbatim>\<open>indicators\<close> and the running score, are the
  fields \<open>acc_indicators\<close> and \<open>acc_score\<close> of an accumulator passed from rule to rule.
  \<open>acc_fired\<close> is a ghost log, absent from the source: it records, for every \<^verbatim>\<open>push\<close>, the
  indicator together with the amount added to the score beside it.
\<close>

record 'i acc =
  acc_indicators :: "'i list"
  acc_score :: int
  acc_fired :: "('i \<times> int) list"

definition empty_acc :: "'i acc" where
  "empty_acc = \<lparr>acc_indicators = [], acc_score = 0, acc_fired = []\<rparr>"

text \<open>\<^verbatim>\<open>indicators.push(ind); score += w\<close>.\<close>

definition fire :: "'i \<Rightarrow> int \<Rightarrow> 'i acc \<Rightarrow> 'i acc" where
  "fire ind w a =
     a\<lparr>acc_indicators := acc_indicators a @ [ind],
       acc_score := acc_score a + w,
       acc_fired := acc_fired a @ [(ind, w)]\<rparr>"

definition m_seqs :: "matcher list \<Rightarrow> matcher" where
  "m_seqs rs = foldr m_seq rs (\<lambda>s. [s])"

text \<open>
  \<^verbatim>\<open>detectHomoglyphAttack\<close>. Of the keys of its table only the one-character key U+00D1
  lies within the code units 0 to 255; every other key holds a code unit above 255 and
  cannot occur in a modelled string. The three ranges (Greek, Cyrillic, Cyrillic
  Supplement) are tested as written.
\<close>

definition detectHomoglyphAttack :: "string \<Rightarrow> bool" where
  "detectHomoglyphAttack email =
     (includes_str email [CHR 0xD1]
      \<or> regex_test (m_class (\<lambda>c. 0x370 \<le> codeUnit c \<and> codeUnit c \<le> 0x3FF)) email
      \<or> regex_test (m_class (\<lambda>c. 0x400 \<le> codeUnit c \<and> codeUnit c \<le> 0x4FF)) email
      \<or> regex_test (m_class (\<lambda>c. 0x500 \<le> codeUnit c \<and> codeUnit c \<le> 0x52F)) email)"

definition disposableDomains :: "string list" where
  "disposableDomains =
     [''tempmail.com'', ''10minutemail.com'', ''guerrillamail.com'', ''mailinator.com'',
      ''temp-mail.org'', ''throwaway.email'', ''yopmail.com'', ''maildrop.cc'',
      ''trashmail.com'', ''tempmail.org'', ''sharklasers.com'', ''spam4.me'', ''grr.la'',
      ''guerrillamail.info'', ''mintemail.com'', ''mytrashmail.com'']"

definition freeDomains :: "string list" where
  "freeDomains = [''gmail.com'', ''yahoo.com'', ''hotmail.com'', ''outlook.com'', ''aol.com'']"

definition corporateKeywords :: "string list" where
  "corporateKeywords =
     [''amazon'', ''apple'', ''microsoft'', ''google'', ''facebook'', ''twitter'', ''netflix'',
      ''paypal'', ''bank'', ''security'', ''admin'', ''support'', ''billing'']"

text \<open>\<^verbatim>\<open>trustedBrands\<close>, in the order of its keys (the order \<^verbatim>\<open>Object.entries\<close> gives).\<close>

definition trustedBrands :: "(string \<times> string list) list" where
  "trustedBrands =
     [(''amazon.com'', [''amason.com'', ''amzaon.com'', ''amazn.com'', ''ammozon.com'',
                        ''anazon.com'', ''amazom.com'']),
      (''apple.com'', [''appel.com'', ''aple.com'', ''appple.com'', ''appl.com'', ''app1e.com'']),
      (''microsoft.com'', [''microsft.com'', ''microsfot.com'', ''microosoft.com'',
                           ''microsof.com'', ''micros0ft.com'']),
      (''google.com'', [''gogle.com'', ''googel.com'', ''googl.com'', ''g00gle.com'',
                        ''gooogle.com'']),
      (''paypal.com'', [''paypall.com'', ''paypa1.com'', ''paypa.com'', ''payal.com'',
                        ''paypaI.com'', ''paypai.com'']),
      (''chase.com'', [''chace.com'', ''chas.com'', ''chaze.com'', ''chasse.com'']),
      (''bankofamerica.com'', [''bankofamerica.co'', ''bank-of-america.com'',
                               ''bankofamerca.com'']),
      (''wellsfargo.com'', [''wellsfargo.co'', ''wellsfago.com'', ''wells-fargo.com'']),
      (''citibank.com'', [''citibank.co'', ''citibanc.com'', ''citi-bank.com'']),
      (''gmail.com'', [''gmai1.com'', ''gmall.com'', ''gmial.com'', ''gamil.com'', ''gmai.com'']),
      (''yahoo.com'', [''yaho.com'', ''yahooo.com'', ''yaho0.com'', ''yahho.com'']),
      (''outlook.com'', [''outlok.com'', ''0utlook.com'', ''out1ook.com'']),
      (''facebook.com'', [''faceb00k.com'', ''facebok.com'', ''face-book.com'',
                          ''faceboook.com'']),
      (''instagram.com'', [''instgram.com'', ''instagran.com'', ''inst4gram.com'']),
      (''twitter.com'', [''twiter.com'', ''twiiter.com'', ''twittter.com'']),
      (''linkedin.com'', [''linkedln.com'', ''linked-in.com'', ''linkdin.com'']),
      (''netflix.com'', [''netfl1x.com'', ''netflx.com'', ''netflix.co'', ''netflex.com'']),
      (''spotify.com'', [''spotfy.com'', ''spotifi.com'', ''spot1fy.com'']),
      (''ebay.com'', [''ebey.com'', ''e-bay.com'', ''ebay.co'']),
      (''fedex.com'', [''fedx.com'', ''fed-ex.com'', ''fedex.co'']),
      (''usps.com'', [''usps.co'', ''u5ps.com'', ''usps.net'']),
      (''dhl.com'', [''dh1.com'', ''dhI.com''])]"

text \<open>1. Disposable domains.\<close>

definition check_disposable :: "string \<Rightarrow> indicator acc \<Rightarrow> indicator acc" where
  "check_disposable domain a =
     (if domain \<in> set disposableDomains then fire DisposableDomain 50 a else a)"

text \<open>2. A free mail domain with a corporate keyword in the user name.
  \<^verbatim>\<open>keyword.replace(".", "")\<close> removes the first dot.\<close>

definition check_corporate :: "string \<Rightarrow> string \<Rightarrow> indicator acc \<Rightarrow> indicator acc" where
  "check_corporate username domain a =
     (if domain \<in> set freeDomains
      then (if list_ex (\<lambda>keyword. includes_str username keyword
                          \<or> includes_str username (remove1 CHR ''.'' keyword)) corporateKeywords
            then fire CorporateImpersonation 45 a else a)
      else a)"

text \<open>3. The loop over \<^verbatim>\<open>trustedBrands\<close>: the exact typo test on every entry visited, then
  the fuzzy test, which ends the loop (\<^verbatim>\<open>break\<close>) the first time it fires.\<close>

definition fuzzy_hit :: "string \<Rightarrow> string \<Rightarrow> bool" where
  "fuzzy_hit domainName legitName =
     (let distance = levenshteinDistance domainName legitName
      in distance > 0 \<and> distance \<le> 2 \<and> length domainName \<ge> 4)"

fun check_brands ::
  "string \<Rightarrow> string \<Rightarrow> (string \<times> string list) list \<Rightarrow> indicator acc \<Rightarrow> indicator acc" where
  "check_brands domain baseDomain [] a = a"
| "check_brands domain baseDomain ((legitimate, typos) # rest) a =
     (let a1 = (if domain \<in> set typos \<or> baseDomain \<in> set typos
                then fire (TyposquattingConfirmed domain legitimate) 75 a else a);
          domainName = first_part (split_on CHR ''.'' baseDomain);
          legitName = first_part (split_on CHR ''.'' legitimate)
      in if fuzzy_hit domainName legitName
         then fire (TyposquattingFuzzy domainName legitName
                      (levenshteinDistance domainName legitName)) 55 a1
         else check_brands domain baseDomain rest a1)"

text \<open>Combo domains: three expressions under the \<^verbatim>\<open>i\<close> flag, each tested on the domain.\<close>

definition suspiciousComboPatterns :: "((string \<Rightarrow> bool) \<times> string) list" where
  "suspiciousComboPatterns =
     [(regex_test_i
         (m_seqs [m_alts (map m_lit [''amazon'', ''paypal'', ''apple'', ''microsoft'', ''google'',
                                     ''netflix'', ''facebook'']),
                  m_class (oneOf ''-.'')]),
       ''major tech/retail brand''),
      (regex_test_i
         (m_seqs [m_alts (map m_lit [''chase'', ''bank'', ''citibank'', ''wells'', ''fargo'']),
                  m_class (oneOf ''-.'')]),
       ''financial institution''),
      (regex_test_i
         (m_seqs [m_alts (map m_lit [''service'', ''support'', ''account'', ''verify'',
                                     ''security'']),
                  m_class (oneOf ''-.''),
                  m_alts (map m_lit [''amazon'', ''paypal'', ''apple'', ''google''])]),
       ''service subdomain + brand'')]"

definition check_combo :: "string \<Rightarrow> indicator acc \<Rightarrow> indicator acc" where
  "check_combo domain a =
     fold (\<lambda>(pattern, brand) a. if pattern domain
                                 then fire (ComboDomain brand) 45 a else a)
       suspiciousComboPatterns a"

text \<open>Keyboard proximity: \<^verbatim>\<open>keyboardProximityPairs[c] || []\<close>.\<close>

definition keyboardProximityPairs :: "char \<Rightarrow> string" where
  "keyboardProximityPairs c =
     (if c = CHR ''a'' then ''sqwz''
      else if c = CHR ''e'' then ''rwd''
      else if c = CHR ''i'' then ''ouk''
      else if c = CHR ''o'' then ''ipl''
      else if c = CHR ''n'' then ''mbh''
      else [])"

text \<open>The inner loop runs over the positions of two names of equal length.\<close>

definition proximityMatches :: "string \<Rightarrow> string \<Rightarrow> nat" where
  "proximityMatches legitName domainName =
     length (filter (\<lambda>(l, d). l \<noteq> d \<and> d \<in> set (keyboardProximityPairs l))
               (zip legitName domainName))"

fun check_keyboard ::
  "string \<Rightarrow> (string \<times> string list) list \<Rightarrow> indicator acc \<Rightarrow> indicator acc" where
  "check_keyboard baseDomain [] a = a"
| "check_keyboard baseDomain ((legitimate, typos) # rest) a =
     (let legitName = first_part (split_on CHR ''.'' legitimate);
          domainName = first_part (split_on CHR ''.'' baseDomain)
      in if length legitName = length domainName
            \<and> proximityMatches legitName domainName = 1
         then fire (KeyboardProximity domainName legitName) 50 a
         else check_keyboard baseDomain rest a)"

text \<open>Number and letter substitution, tested on the base domain.\<close>

definition substitutionPatterns :: "((string \<Rightarrow> bool) \<times> string \<times> string) list" where
  "substitutionPatterns =
     [(regex_test_i (m_rep 2 None (oneOf ''0o'')), ''o/0'', ''g00gle''),
      (regex_test_i (m_rep 2 None (oneOf ''1il'')), ''i/l/1'', ''app1e''),
      (regex_test_i (m_alt (m_seqs [m_lit ''5'', m_rep 0 None isDot, m_lit ''s''])
                           (m_seqs [m_lit ''s'', m_rep 0 None isDot, m_lit ''5''])),
       ''s/5'', ''5ecure''),
      (regex_test_i (m_alt (m_seqs [m_lit ''3'', m_rep 0 None isDot, m_lit ''e''])
                           (m_seqs [m_lit ''e'', m_rep 0 None isDot, m_lit ''3''])),
       ''e/3'', ''3bay'')]"

definition check_substitution :: "string \<Rightarrow> indicator acc \<Rightarrow> indicator acc" where
  "check_substitution baseDomain a =
     fold (\<lambda>(pattern, char, example) a.
             if pattern baseDomain \<and> regex_test (m_class isLower) baseDomain
             then fire (Substitution char example) 40 a else a)
       substitutionPatterns a"

text \<open>4. Homoglyphs: in the address as given, then four expressions on the domain.\<close>

definition check_homoglyph :: "string \<Rightarrow> indicator acc \<Rightarrow> indicator acc" where
  "check_homoglyph email a =
     (if detectHomoglyphAttack email then fire HomoglyphAttack 50 a else a)"

text \<open>The first three expressions carry the \<^verbatim>\<open>i\<close> flag, the fourth does not.\<close>

definition homoglyphPatterns :: "((string \<Rightarrow> bool) \<times> string) list" where
  "homoglyphPatterns =
     [(regex_test_i
         (m_seqs [m_lit ''0'', m_ahead (m_seqs [m_rep 0 None isDot, m_class isLower])]),
       ''Zero/O substitution''),
      (regex_test_i
         (m_seqs [m_lit ''1'', m_ahead (m_seqs [m_rep 0 None isDot, m_class isLower])]),
       ''One/l substitution''),
      (regex_test_i (m_rep 2 None (oneOf ''5s'')), ''S/5 pattern repetition''),
      (regex_test
         (m_seqs [m_lit ''I'', m_ahead (m_seqs [m_rep 0 None isLower, m_lit ''@''])]),
       ''Capital I/lowercase l in domain'')]"

definition check_homoglyph_domain :: "string \<Rightarrow> indicator acc \<Rightarrow> indicator acc" where
  "check_homoglyph_domain domain a =
     fold (\<lambda>(pattern, name) a. if pattern domain
                                then fire (HomoglyphInDomain name) 30 a else a)
       homoglyphPatterns a"

text \<open>5. Suspicious keywords in the user name: one indicator, ten points a keyword, at
  most forty.\<close>

definition suspiciousKeywords :: "string list" where
  "suspiciousKeywords =
     [''noreply'', ''donotreply'', ''no-reply'', ''urgent'', ''verify'', ''confirm'', ''alert'',
      ''action'', ''required'', ''update'', ''security'', ''account'', ''spam'', ''admin'',
      ''test'', ''fake'', ''tmp'', ''temp'', ''payment'', ''wire'', ''transfer'', ''invoice'',
      ''receipt'', ''confirm-identity'', ''verify-account'', ''suspend'', ''locked'',
      ''compromised'', ''unauthorized'']"

definition check_keywords :: "string \<Rightarrow> indicator acc \<Rightarrow> indicator acc" where
  "check_keywords username a =
     (let matchedKeywords = filter (\<lambda>keyword. includes_str username keyword) suspiciousKeywords
      in if length matchedKeywords > 0
         then fire (SuspiciousKeywords matchedKeywords)
                (min (int (length matchedKeywords) * 10) 40) a
         else a)"

text \<open>Business email compromise: three expressions under the \<^verbatim>\<open>i\<close> flag, tested on the
  address as given, each with its own score.\<close>

definition BECPatterns :: "((string \<Rightarrow> bool) \<times> int \<times> string) list" where
  "BECPatterns =
     [(regex_test_i (m_alts (map m_lit [''ceo'', ''executive'', ''cfo'', ''cto'', ''director''])),
       25, ''Executive role in username''),
      (regex_test_i (m_alts (map m_lit [''finance'', ''accounting'', ''payroll'', ''treasury''])),
       20, ''Finance/banking keywords''),
      (regex_test_i (m_alts (map m_lit [''wire'', ''transfer'', ''payment'', ''invoice''])),
       25, ''Financial transaction keywords'')]"

definition check_bec :: "string \<Rightarrow> indicator acc \<Rightarrow> indicator acc" where
  "check_bec email a =
     fold (\<lambda>(pattern, score, name) a. if pattern email
                                       then fire (BECPattern name) score a else a)
       BECPatterns a"

text \<open>6. Runs of five digits or more, and a character repeated five times or more.\<close>

definition check_numbers :: "string \<Rightarrow> indicator acc \<Rightarrow> indicator acc" where
  "check_numbers email a =
     (case regex_first (m_rep 5 None isDigit) email of
        None \<Rightarrow> a
      | Some consecutiveNumbers \<Rightarrow> fire (RandomNumbers consecutiveNumbers) 25 a)"

definition check_repeating :: "string \<Rightarrow> indicator acc \<Rightarrow> indicator acc" where
  "check_repeating email a =
     (case regex_first (m_same_again 4) email of
        None \<Rightarrow> a
      | Some repeatingChars \<Rightarrow> fire (RepeatingChars repeatingChars) 20 a)"

text \<open>7. Top-level domains, then shortener domains (membership of the base domain).\<close>

definition suspiciousTLDs :: "string list" where
  "suspiciousTLDs =
     [''.tk'', ''.ml'', ''.ga'', ''.cf'', ''.gq'',
      ''.xyz'', ''.top'', ''.win'', ''.bid'', ''.stream'', ''.download'',
      ''.pw'', ''.ws'', ''.cc'', ''.tv'', ''.link'', ''.click'',
      ''.info'', ''.biz'', ''.online'', ''.site'', ''.website'',
      ''.ru'', ''.cn'', ''.br'', ''.in'']"

definition check_tld :: "string list \<Rightarrow> indicator acc \<Rightarrow> indicator acc" where
  "check_tld domainParts a =
     (let tld = toLowerCase (last_part domainParts)
      in if (''.'' @ tld) \<in> set suspiciousTLDs then fire (HighRiskTLD tld) 35 a else a)"

definition urlShortenerDomains :: "string list" where
  "urlShortenerDomains =
     [''bit.ly'', ''tinyurl.com'', ''goo.gl'', ''ow.ly'', ''t.co'', ''is.gd'',
      ''buff.ly'', ''adf.ly'', ''shorturl.at'', ''cutt.ly'', ''rb.gy'']"

definition check_shortener :: "string \<Rightarrow> indicator acc \<Rightarrow> indicator acc" where
  "check_shortener baseDomain a =
     (if baseDomain \<in> set urlShortenerDomains then fire (ShortenerDomain baseDomain) 30 a else a)"

text \<open>8. Domain structure.\<close>

definition check_complex :: "string list \<Rightarrow> indicator acc \<Rightarrow> indicator acc" where
  "check_complex domainParts a =
     (if length domainParts > 3 then fire ComplexDomain 25 a else a)"

definition re_com_hyphen :: matcher where
  "re_com_hyphen = m_seqs [m_lit ''.'', m_alts (map m_lit [''com'', ''net'', ''org'']), m_lit ''-'']"

definition check_confusion :: "string \<Rightarrow> indicator acc \<Rightarrow> indicator acc" where
  "check_confusion domain a =
     (if regex_test re_com_hyphen domain then fire SubdomainConfusion 65 a else a)"

definition suspiciousSuffixes :: "string list" where
  "suspiciousSuffixes =
     [''verify'', ''update'', ''confirm'', ''alert'', ''security'', ''support'', ''admin'',
      ''account'', ''service'', ''portal'', ''login'', ''signin'', ''secure'', ''auth'']"

fun check_suffix :: "string \<Rightarrow> string list \<Rightarrow> indicator acc \<Rightarrow> indicator acc" where
  "check_suffix domain [] a = a"
| "check_suffix domain (suffix # rest) a =
     (if includes_str domain (''-'' @ suffix) \<or> includes_str domain (suffix @ ''-'')
      then fire (SuspiciousSuffix suffix) 40 a
      else check_suffix domain rest a)"

definition check_subdomain_brand :: "string \<Rightarrow> indicator acc \<Rightarrow> indicator acc" where
  "check_subdomain_brand subdomain a =
     (if subdomain \<noteq> []
      then (if list_ex (\<lambda>brand. includes_str subdomain (first_part (split_on CHR ''.'' brand)))
                 (map fst trustedBrands)
            then fire BrandInSubdomain 50 a else a)
      else a)"

text \<open>9. Hyphens inside brand names.\<close>

definition brandPatterns :: "string list" where
  "brandPatterns =
     [''micro-soft'', ''amaz-on'', ''app-le'', ''pay-pal'', ''google-'', ''-google'', ''face-book'']"

definition check_brand_hyphen :: "string \<Rightarrow> indicator acc \<Rightarrow> indicator acc" where
  "check_brand_hyphen domain a =
     (if list_ex (\<lambda>pattern. includes_str domain pattern) brandPatterns
      then fire HyphenBrokenBrand 35 a else a)"

text \<open>10. User names: length, generic names.\<close>

definition check_short_username :: "string \<Rightarrow> indicator acc \<Rightarrow> indicator acc" where
  "check_short_username username a = (if length username < 2 then fire ShortUsername 20 a else a)"

definition check_long_username :: "string \<Rightarrow> indicator acc \<Rightarrow> indicator acc" where
  "check_long_username username a = (if length username > 64 then fire LongUsername 15 a else a)"

definition veryGenericNames :: "string list" where
  "veryGenericNames = [''admin'', ''test'', ''user'', ''info'', ''support'', ''noreply'', ''mail'']"

definition check_generic :: "string \<Rightarrow> string \<Rightarrow> indicator acc \<Rightarrow> indicator acc" where
  "check_generic username domain a =
     (if username \<in> set veryGenericNames \<and> domain \<notin> set freeDomains
      then fire (GenericUsername username) 20 a else a)"

text \<open>11. to 13. Mismatch, aliasing, consecutive special characters.\<close>

definition check_mismatch :: "string \<Rightarrow> string \<Rightarrow> indicator acc \<Rightarrow> indicator acc" where
  "check_mismatch username domain a =
     (let isLikelyProDomain = (includes_str domain ''company'' \<or> includes_str domain ''corp''
                               \<or> endsWith domain ''.edu'')
      in if isLikelyProDomain
            \<and> list_ex (\<lambda>keyword. includes_str username keyword) suspiciousKeywords
         then fire ProDomainMismatch 25 a else a)"

definition check_aliasing :: "string \<Rightarrow> indicator acc \<Rightarrow> indicator acc" where
  "check_aliasing username a = (if includes_str username ''++'' then fire Aliasing 15 a else a)"

definition check_specials :: "string \<Rightarrow> indicator acc \<Rightarrow> indicator acc" where
  "check_specials username a =
     (if regex_test (m_rep 2 None (oneOf ''.-_'')) username
      then fire ConsecutiveSpecials 15 a else a)"

text \<open>14. to 16. Punycode, an IP address inside the domain, service identifiers.\<close>

definition check_punycode :: "string \<Rightarrow> indicator acc \<Rightarrow> indicator acc" where
  "check_punycode domain a = (if includes_str domain ''xn--'' then fire Punycode 60 a else a)"

definition re_ip :: matcher where
  "re_ip = m_seqs [m_rep 1 (Some 3) isDigit, m_lit ''.'', m_rep 1 (Some 3) isDigit, m_lit ''.'',
                   m_rep 1 (Some 3) isDigit, m_lit ''.'', m_rep 1 (Some 3) isDigit]"

definition check_ip :: "string \<Rightarrow> indicator acc \<Rightarrow> indicator acc" where
  "check_ip domain a = (if regex_test re_ip domain then fire IPAddressDomain 80 a else a)"

definition re_service_id :: matcher where
  "re_service_id =
     m_alts [m_seqs [m_lit ''support'', m_opt (m_lit ''-''), m_lit ''id'', m_opt (m_lit ''-''),
                     m_rep 1 None isDigit],
             m_seqs [m_lit ''ticket'', m_opt (m_lit ''-''), m_rep 1 None isDigit],
             m_seqs [m_lit ''case'', m_opt (m_lit ''-''), m_rep 1 None isDigit],
             m_seqs [m_lit ''ref'', m_opt (m_lit ''-''), m_rep 1 None isDigit],
             m_seqs [m_lit ''transaction'', m_opt (m_lit ''-''), m_rep 1 None isDigit]]"

definition check_service_id :: "string \<Rightarrow> indicator acc \<Rightarrow> indicator acc" where
  "check_service_id username a =
     (if regex_test_i re_service_id username then fire ServiceIdPattern 30 a else a)"

text \<open>17. to 20. Parked domains, hyphen count, mixed case, names without a vowel.\<close>

definition expiredDomainIndicators :: "string list" where
  "expiredDomainIndicators = [''parked'', ''expired'', ''forsale'', ''available'', ''register'']"

definition check_expired :: "string \<Rightarrow> indicator acc \<Rightarrow> indicator acc" where
  "check_expired domain a =
     fold (\<lambda>source a. if regex_test_i (m_lit source) domain
                       then fire (ExpiredDomain source) 45 a else a)
       expiredDomainIndicators a"

definition check_hyphens :: "string \<Rightarrow> indicator acc \<Rightarrow> indicator acc" where
  "check_hyphens domain a =
     (let hyphenCount = count_char CHR ''-'' domain
      in if hyphenCount \<ge> 3 then fire (ExcessiveHyphens hyphenCount) 35 a else a)"

definition check_mixed_case :: "string \<Rightarrow> indicator acc \<Rightarrow> indicator acc" where
  "check_mixed_case domain a =
     (if regex_test (m_class isUpper) domain \<and> domain \<noteq> toLowerCase domain
      then fire MixedCase 25 a else a)"

definition check_vowelless :: "string \<Rightarrow> indicator acc \<Rightarrow> indicator acc" where
  "check_vowelless baseDomain a =
     (let domainNameOnly = first_part (split_on CHR ''.'' baseDomain)
      in if length domainNameOnly > 5 \<and> \<not> regex_test_i (m_class (oneOf ''aeiou'')) domainNameOnly
         then fire (VowellessDomain domainNameOnly) 30 a else a)"

text \<open>
  The rules in the order of the source, for an address whose user name and domain are
  present. \<open>email\<close> is the address as given; \<open>username\<close> and \<open>domain\<close> come from its
  lower-cased form.
\<close>

definition spam_rules :: "string \<Rightarrow> string \<Rightarrow> string \<Rightarrow> (indicator acc \<Rightarrow> indicator acc) list" where
  "spam_rules email username domain =
     (let domainParts = split_on CHR ''.'' domain;
          baseDomain = join_dot (slice_last2 domainParts);
          subdomain = (if length domainParts > 2 then join_dot (slice_but_last2 domainParts)
                       else [])
      in [check_disposable domain,
          check_corporate username domain,
          check_brands domain baseDomain trustedBrands,
          check_combo domain,
          check_keyboard baseDomain trustedBrands,
          check_substitution baseDomain,
          check_homoglyph email,
          check_homoglyph_domain domain,
          check_keywords username,
          check_bec email,
          check_numbers email,
          check_repeating email,
          check_tld domainParts,
          check_shortener baseDomain,
          check_complex domainParts,
          check_confusion domain,
          check_suffix domain suspiciousSuffixes,
          check_subdomain_brand subdomain,
          check_brand_hyphen domain,
          check_short_username username,
          check_long_username username,
          check_generic username domain,
          check_mismatch username domain,
          check_aliasing username,
          check_specials username,
          check_punycode domain,
          check_ip domain,
          check_service_id username,
          check_expired domain,
          check_hyphens domain,
          check_mixed_case domain,
          check_vowelless baseDomain])"

definition run_rules :: "('i acc \<Rightarrow> 'i acc) list \<Rightarrow> 'i acc" where
  "run_rules rules = fold (\<lambda>rule a. rule a) rules empty_acc"

datatype email_level = Safe | Risky | Invalid

datatype email_verdict = Legitimate | Suspicious | Fake

text \<open>The texts of \<^verbatim>\<open>reason\<close> and \<^verbatim>\<open>aiAnalysis\<close>.\<close>

datatype message =
    EmailFormatInvalid              \<comment> \<open>Email format is invalid\<close>
  | EmailAppearsLegitimate          \<comment> \<open>Email appears legitimate\<close>
  | DetectedIndicators nat          \<comment> \<open>Detected n risk indicator(s)\<close>
  | UrlAppearsSafe                  \<comment> \<open>URL appears safe - no red flags detected\<close>
  | DetectedConcerns nat            \<comment> \<open>Detected n security concern(s)\<close>
  | UrlParsingFailed                \<comment> \<open>URL parsing failed - potentially malformed or malicious\<close>
  | KeyMissingLocalOnly             \<comment> \<open>API key not configured. Using local analysis only.\<close>
  | KeyMissingSetVariable           \<comment> \<open>API key not configured. Please set (the variable).\<close>
  | AnalysisErrorTryAgain           \<comment> \<open>AI analysis encountered an error. Please try again.\<close>
  | AnalysisTimedOut                \<comment> \<open>AI analysis timed out. URL appears suspicious (...)\<close>
  | AnalysisErrorVerifyManually     \<comment> \<open>AI analysis encountered an error. Please verify this URL (...)\<close>
  | ArbiterExplanation string       \<comment> \<open>the explanation the model returned\<close>

definition email_level_of :: "int \<Rightarrow> email_level" where
  "email_level_of score =
     (let riskLevel = Safe;
          riskLevel = (if score \<ge> 35 then Risky else riskLevel);
          riskLevel = (if score \<ge> 65 then Invalid else riskLevel)
      in riskLevel)"

record SpamCheckResult =
  email :: string
  isSpam :: bool
  riskLevel :: email_level
  spamScore :: int
  indicators :: "indicator list"
  reason :: message
  aiAnalysis :: "message option"
  geminiVerdict :: "email_verdict option"

text \<open>
  \<^verbatim>\<open>const [username, domain] = emailLower.split("@")\<close> takes the first two pieces of the
  split; a piece that is missing (\<^verbatim>\<open>undefined\<close>) or empty is falsy.
\<close>

definition email_parts :: "string \<Rightarrow> (string \<times> string) option" where
  "email_parts em =
     (case split_on CHR ''@'' (toLowerCase em) of
        username # domain # _ \<Rightarrow>
          if username = [] \<or> domain = [] then None else Some (username, domain)
      | _ \<Rightarrow> None)"

text \<open>The early return for an address without a user name or a domain.\<close>

definition invalid_email_result :: "string \<Rightarrow> SpamCheckResult" where
  "invalid_email_result em =
     \<lparr>email = em, isSpam = True, riskLevel = Invalid, spamScore = 100,
      indicators = [InvalidEmailFormat], reason = EmailFormatInvalid,
      aiAnalysis = None, geminiVerdict = None\<rparr>"

text \<open>The rest of the function: the rules, the cap at 100, the risk level.\<close>

definition scored_email_result :: "string \<Rightarrow> string \<Rightarrow> string \<Rightarrow> SpamCheckResult" where
  "scored_email_result em username domain =
     (let a = run_rules (spam_rules em username domain);
          score = min (acc_score a) 100
      in \<lparr>email = em, isSpam = score > 35, riskLevel = email_level_of score,
          spamScore = score, indicators = acc_indicators a,
          reason = (if length (acc_indicators a) = 0 then EmailAppearsLegitimate
                    else DetectedIndicators (length (acc_indicators a))),
          aiAnalysis = None, geminiVerdict = None\<rparr>)"

definition performLocalSpamDetection :: "string \<Rightarrow> SpamCheckResult" where
  "performLocalSpamDetection em =
     (case email_parts em of
        None \<Rightarrow> invalid_email_result em
      | Some parts \<Rightarrow> scored_email_result em (fst parts) (snd parts))"

section \<open>The URL checker: local analysis\<close>

datatype url_indicator =
    InvalidUrlFormat                      \<comment> \<open>Invalid URL format - unable to parse\<close>
  | NoHttps                               \<comment> \<open>NO SSL/HTTPS\<close>
  | IpAddressHost                         \<comment> \<open>IP ADDRESS: Using raw IP instead of domain name\<close>
  | UrlShortener                          \<comment> \<open>URL SHORTENER: Link hides real destination\<close>
  | UrlHighRiskTLD string                 \<comment> \<open>HIGH-RISK TLD: .tld\<close>
  | BrandImpersonation string             \<comment> \<open>BRAND IMPERSONATION: Domain contains brandName\<close>
  | UrlSubdomainConfusion                 \<comment> \<open>SUBDOMAIN CONFUSION: Contains '.com-' pattern\<close>
  | UrlExcessiveHyphens nat               \<comment> \<open>EXCESSIVE HYPHENS: count\<close>
  | ComplexSubdomain int                  \<comment> \<open>COMPLEX SUBDOMAIN: count\<close>
  | PhishingKeywords "string list"        \<comment> \<open>PHISHING KEYWORDS: Found keywords\<close>
  | LongPath nat                          \<comment> \<open>UNUSUALLY LONG URL PATH: length\<close>
  | RandomString                          \<comment> \<open>RANDOM CHARACTER STRING\<close>
  | RedirectParameters "string list"      \<comment> \<open>REDIRECT PARAMETERS: Found keys\<close>
  | UrlPunycode                           \<comment> \<open>PUNYCODE DETECTED\<close>
  | UrlObfuscation                        \<comment> \<open>URL OBFUSCATION: Contains '@' symbol\<close>
  | UnusualPort string                    \<comment> \<open>UNUSUAL PORT: port\<close>
  | ExecutableFile                        \<comment> \<open>EXECUTABLE FILE\<close>
  | DataUrl                               \<comment> \<open>DATA URL\<close>
  | JavascriptProtocol                    \<comment> \<open>JAVASCRIPT PROTOCOL\<close>
  | ShortenedRedirect string              \<comment> \<open>SHORTENED URL: Redirects to finalUrl (added by the route)\<close>

text \<open>The shortener list, written out twice in the source with the same entries: in
  \<^verbatim>\<open>resolveURLRedirects\<close> and in \<^verbatim>\<open>performLocalURLAnalysis\<close>.\<close>

definition urlShorteners :: "string list" where
  "urlShorteners =
     [''bit.ly'', ''tinyurl.com'', ''goo.gl'', ''ow.ly'', ''t.co'', ''is.gd'',
      ''buff.ly'', ''adf.ly'', ''shorturl.at'', ''cutt.ly'', ''rb.gy'', ''short.io'',
      ''tiny.cc'', ''tr.im'', ''cli.gs'', ''u.nu'', ''x.co'', ''budurl.com'']"

definition is_shortener_host :: "string \<Rightarrow> bool" where
  "is_shortener_host domain = list_ex (\<lambda>shortener. includes_str domain shortener) urlShorteners"

text \<open>1. to 3. Protocol, IP address as host, shorteners.\<close>

definition url_check_protocol :: "string \<Rightarrow> url_indicator acc \<Rightarrow> url_indicator acc" where
  "url_check_protocol protocol a = (if protocol \<noteq> ''https:'' then fire NoHttps 50 a else a)"

definition re_ip_host :: matcher where
  "re_ip_host = m_seqs [m_rep 1 (Some 3) isDigit, m_lit ''.'', m_rep 1 (Some 3) isDigit, m_lit ''.'',
                        m_rep 1 (Some 3) isDigit, m_lit ''.'', m_rep 1 (Some 3) isDigit, m_end]"

text \<open>An expression that starts with \<^verbatim>\<open>^\<close> is tried at the first position only.\<close>

definition regex_test_from_start :: "matcher \<Rightarrow> string \<Rightarrow> bool" where
  "regex_test_from_start r s = (r s \<noteq> [])"

definition url_check_ip :: "string \<Rightarrow> url_indicator acc \<Rightarrow> url_indicator acc" where
  "url_check_ip domain a =
     (if regex_test_from_start re_ip_host domain then fire IpAddressHost 80 a else a)"

definition url_check_shortener :: "string \<Rightarrow> url_indicator acc \<Rightarrow> url_indicator acc" where
  "url_check_shortener domain a = (if is_shortener_host domain then fire UrlShortener 40 a else a)"

text \<open>4. Top-level domains: \<^verbatim>\<open>domain.split(".").pop() || ""\<close>.\<close>

definition suspiciousTLDs_url :: "string list" where
  "suspiciousTLDs_url =
     [''.tk'', ''.ml'', ''.ga'', ''.cf'', ''.gq'',
      ''.xyz'', ''.top'', ''.win'', ''.bid'', ''.stream'', ''.download'', ''.click'',
      ''.pw'', ''.ws'', ''.cc'', ''.zip'', ''.review'', ''.loan'', ''.faith'', ''.science'',
      ''.work'', ''.party'', ''.gdn'', ''.men'', ''.date'']"

definition url_check_tld :: "string \<Rightarrow> url_indicator acc \<Rightarrow> url_indicator acc" where
  "url_check_tld domain a =
     (let tld = last_part (split_on CHR ''.'' domain)
      in if (''.'' @ tld) \<in> set suspiciousTLDs_url then fire (UrlHighRiskTLD tld) 35 a else a)"

text \<open>5. Brand names inside a host that is not the brand's: one indicator a brand.\<close>

definition trustedBrands_url :: "string list" where
  "trustedBrands_url =
     [''google.com'', ''facebook.com'', ''amazon.com'', ''paypal.com'', ''microsoft.com'',
      ''apple.com'', ''netflix.com'', ''instagram.com'', ''twitter.com'', ''linkedin.com'',
      ''ebay.com'', ''walmart.com'', ''chase.com'', ''bankofamerica.com'', ''wellsfargo.com'']"

definition url_check_brands :: "string \<Rightarrow> url_indicator acc \<Rightarrow> url_indicator acc" where
  "url_check_brands domain a =
     fold (\<lambda>brand a.
             if includes_str domain (first_part (split_on CHR ''.'' brand)) \<and> \<not> endsWith domain brand
             then fire (BrandImpersonation (first_part (split_on CHR ''.'' brand))) 60 a else a)
       trustedBrands_url a"

text \<open>6. and 7. Subdomain confusion, hyphens, subdomain count
  (\<^verbatim>\<open>domain.split(".").length - 2\<close>, which can be negative).\<close>

definition url_check_confusion :: "string \<Rightarrow> url_indicator acc \<Rightarrow> url_indicator acc" where
  "url_check_confusion domain a =
     (if regex_test re_com_hyphen domain then fire UrlSubdomainConfusion 70 a else a)"

definition url_check_hyphens :: "string \<Rightarrow> url_indicator acc \<Rightarrow> url_indicator acc" where
  "url_check_hyphens domain a =
     (let hyphenCount = count_char CHR ''-'' domain
      in if hyphenCount \<ge> 3 then fire (UrlExcessiveHyphens hyphenCount) 30 a else a)"

definition url_check_subdomains :: "string \<Rightarrow> url_indicator acc \<Rightarrow> url_indicator acc" where
  "url_check_subdomains domain a =
     (let subdomainCount = int (length (split_on CHR ''.'' domain)) - 2
      in if subdomainCount \<ge> 3 then fire (ComplexSubdomain subdomainCount) 25 a else a)"

text \<open>8. Keywords anywhere in the lower-cased URL: two or more.\<close>

definition suspiciousKeywords_url :: "string list" where
  "suspiciousKeywords_url =
     [''verify'', ''account'', ''secure'', ''login'', ''signin'', ''update'', ''confirm'',
      ''suspended'', ''locked'', ''urgent'', ''alert'', ''security'', ''authentication'',
      ''billing'', ''payment'', ''wallet'', ''bank'', ''credential'', ''password'']"

definition url_check_keywords :: "string \<Rightarrow> url_indicator acc \<Rightarrow> url_indicator acc" where
  "url_check_keywords url a =
     (let urlLower = toLowerCase url;
          foundKeywords = filter (\<lambda>keyword. includes_str urlLower keyword) suspiciousKeywords_url
      in if length foundKeywords \<ge> 2 then fire (PhishingKeywords foundKeywords) 35 a else a)"

text \<open>9. Long paths and long runs of \<^verbatim>\<open>[a-z0-9]\<close>.\<close>

definition url_check_long_path :: "string \<Rightarrow> url_indicator acc \<Rightarrow> url_indicator acc" where
  "url_check_long_path path a =
     (if length path > 100 then fire (LongPath (length path)) 20 a else a)"

definition url_check_random :: "string \<Rightarrow> url_indicator acc \<Rightarrow> url_indicator acc" where
  "url_check_random path a =
     (if regex_test (m_rep 30 None (\<lambda>c. isLower c \<or> isDigit c)) path
      then fire RandomString 25 a else a)"

text \<open>10. Query keys that name a redirect.\<close>

definition suspiciousParams :: "string list" where
  "suspiciousParams = [''redirect'', ''url'', ''link'', ''goto'', ''return'', ''continue'', ''next'']"

definition url_check_params :: "string list \<Rightarrow> url_indicator acc \<Rightarrow> url_indicator acc" where
  "url_check_params paramKeys a =
     (let foundParams = filter (\<lambda>key. toLowerCase key \<in> set suspiciousParams) paramKeys
      in if length foundParams > 0 then fire (RedirectParameters foundParams) 30 a else a)"

text \<open>11. to 13. Punycode, an \<^verbatim>\<open>@\<close> in the URL (\<^verbatim>\<open>url.split("@").length > 1\<close>), ports.\<close>

definition url_check_punycode :: "string \<Rightarrow> url_indicator acc \<Rightarrow> url_indicator acc" where
  "url_check_punycode domain a = (if includes_str domain ''xn--'' then fire UrlPunycode 60 a else a)"

definition url_check_at :: "string \<Rightarrow> url_indicator acc \<Rightarrow> url_indicator acc" where
  "url_check_at url a =
     (if length (split_on CHR ''@'' url) > 1 then fire UrlObfuscation 70 a else a)"

definition url_check_port :: "string \<Rightarrow> url_indicator acc \<Rightarrow> url_indicator acc" where
  "url_check_port prt a =
     (if prt \<noteq> [] \<and> prt \<notin> set [''80'', ''443'', ''8080''] then fire (UnusualPort prt) 35 a else a)"

text \<open>14. to 16. Executable files, data URLs, javascript URLs.\<close>

definition dangerousExtensions :: "string list" where
  "dangerousExtensions = [''.exe'', ''.scr'', ''.bat'', ''.cmd'', ''.com'', ''.pif'', ''.apk'', ''.dmg'']"

definition url_check_extension :: "string \<Rightarrow> url_indicator acc \<Rightarrow> url_indicator acc" where
  "url_check_extension path a =
     (if list_ex (\<lambda>ext. endsWith (toLowerCase path) ext) dangerousExtensions
      then fire ExecutableFile 75 a else a)"

definition url_check_data :: "string \<Rightarrow> url_indicator acc \<Rightarrow> url_indicator acc" where
  "url_check_data protocol a = (if protocol = ''data:'' then fire DataUrl 45 a else a)"

definition url_check_javascript :: "string \<Rightarrow> url_indicator acc \<Rightarrow> url_indicator acc" where
  "url_check_javascript protocol a =
     (if protocol = ''javascript:'' then fire JavascriptProtocol 90 a else a)"

text \<open>
  \<^verbatim>\<open>new URL(url)\<close> is the platform's parser, not code of the repository: the analysis takes
  it as a parameter \<open>parse\<close>, with \<open>None\<close> where the constructor throws. \<open>url_parts\<close>
  holds the properties of the parsed object the analysis reads; \<open>searchKeys\<close> is
  \<^verbatim>\<open>Array.from(searchParams.keys())\<close>.
\<close>

record url_parts =
  hostname :: string
  protocol :: string
  pathname :: string
  searchKeys :: "string list"
  port :: string

text \<open>The rules in the order of the source, for a URL that parsed.\<close>

definition url_rules :: "string \<Rightarrow> url_parts \<Rightarrow> (url_indicator acc \<Rightarrow> url_indicator acc) list" where
  "url_rules url urlObj =
     (let domain = toLowerCase (hostname urlObj);
          path = pathname urlObj
      in [url_check_protocol (protocol urlObj),
          url_check_ip domain,
          url_check_shortener domain,
          url_check_tld domain,
          url_check_brands domain,
          url_check_confusion domain,
          url_check_hyphens domain,
          url_check_subdomains domain,
          url_check_keywords url,
          url_check_long_path path,
          url_check_random path,
          url_check_params (searchKeys urlObj),
          url_check_punycode domain,
          url_check_at url,
          url_check_port (port urlObj),
          url_check_extension path,
          url_check_data (protocol urlObj),
          url_check_javascript (protocol urlObj)])"

datatype url_level = UrlSafe | UrlSuspicious | UrlDangerous

definition url_level_of :: "int \<Rightarrow> url_level" where
  "url_level_of score =
     (let level = UrlSafe;
          level = (if score \<ge> 30 then UrlSuspicious else level);
          level = (if score \<ge> 60 then UrlDangerous else level)
      in level)"

text \<open>\<^verbatim>\<open>URLCheckResult\<close>. The fields whose names the email result already uses carry the
  prefix \<open>url_\<close>; the optional fields are options.\<close>

record URLCheckResult =
  url :: string
  isSafe :: bool
  url_riskLevel :: url_level
  riskScore :: int
  url_indicators :: "url_indicator list"
  url_redirectChain :: "string list option"
  finalDestination :: "string option"
  url_isShortened :: "bool option"
  url_reason :: message
  url_aiAnalysis :: "message option"
  url_geminiVerdict :: "url_level option"

text \<open>The \<^verbatim>\<open>catch\<close> branch: the constructor threw.\<close>

definition unparsed_url_result :: "string \<Rightarrow> URLCheckResult" where
  "unparsed_url_result u =
     \<lparr>url = u, isSafe = False, url_riskLevel = UrlDangerous, riskScore = 100,
      url_indicators = [InvalidUrlFormat], url_redirectChain = None, finalDestination = None,
      url_isShortened = None, url_reason = UrlParsingFailed, url_aiAnalysis = None,
      url_geminiVerdict = None\<rparr>"

text \<open>The \<^verbatim>\<open>try\<close> branch after the constructor: nothing in it throws.\<close>

definition scored_url_result :: "string \<Rightarrow> url_parts \<Rightarrow> URLCheckResult" where
  "scored_url_result u urlObj =
     (let a = run_rules (url_rules u urlObj);
          score = min (acc_score a) 100
      in \<lparr>url = u, isSafe = score < 30, url_riskLevel = url_level_of score, riskScore = score,
          url_indicators = acc_indicators a, url_redirectChain = None, finalDestination = None,
          url_isShortened = None,
          url_reason = (if length (acc_indicators a) = 0 then UrlAppearsSafe
                        else DetectedConcerns (length (acc_indicators a))),
          url_aiAnalysis = None, url_geminiVerdict = None\<rparr>)"

definition performLocalURLAnalysis :: "(string \<Rightarrow> url_parts option) \<Rightarrow> string \<Rightarrow> URLCheckResult" where
  "performLocalURLAnalysis parse u =
     (case parse u of
        None \<Rightarrow> unparsed_url_result u
      | Some urlObj \<Rightarrow> scored_url_result u urlObj)"

section \<open>The redirect resolver\<close>

text \<open>
  \<^verbatim>\<open>resolveURLRedirects\<close> talks to the network and reads the clock. Both are parameters:
  \<^item> \<open>parseURL\<close> is \<^verbatim>\<open>new URL(url)\<close>, \<open>None\<close> where it throws;
  \<^item> \<open>head\<close> is the \<^verbatim>\<open>HEAD\<close> request with \<^verbatim>\<open>redirect: 'manual'\<close> and its two-second abort
    signal: the status and the \<^verbatim>\<open>location\<close> header of the response, or \<open>FetchFailed\<close>
    where \<^verbatim>\<open>fetch\<close> rejects (network error or abort);
  \<^item> \<open>resolveRelative location base\<close> is \<^verbatim>\<open>new URL(location, base).toString()\<close>, \<open>None\<close>
    where it throws;
  \<^item> \<open>elapsed k\<close> is \<^verbatim>\<open>Date.now() - startTime\<close> when the loop condition is evaluated with
    \<^verbatim>\<open>attempts = k\<close> (every pass that does not leave the loop adds one to \<^verbatim>\<open>attempts\<close>).
\<close>

datatype head_response = FetchFailed | Response int "string option"

record network =
  parseURL :: "string \<Rightarrow> url_parts option"
  head :: "string \<Rightarrow> head_response"
  resolveRelative :: "string \<Rightarrow> string \<Rightarrow> string option"
  elapsed :: "nat \<Rightarrow> int"

definition maxRedirects :: nat where
  "maxRedirects = 5"

definition totalTimeLimit :: int where
  "totalTimeLimit = 5000"

text \<open>\<^verbatim>\<open>location.startsWith('http') ? location : new URL(location, nextUrl).toString()\<close>.\<close>

definition redirect_target :: "network \<Rightarrow> string \<Rightarrow> string \<Rightarrow> string option" where
  "redirect_target net location nextUrl =
     (if startsWith location ''http'' then Some location else resolveRelative net location nextUrl)"

text \<open>
  The \<^verbatim>\<open>while\<close> loop. Its state is \<^verbatim>\<open>attempts\<close>, \<^verbatim>\<open>nextUrl\<close>, \<^verbatim>\<open>currentUrl\<close> and
  \<^verbatim>\<open>redirectChain\<close>; it returns the last two. Each \<^verbatim>\<open>break\<close>, and the \<^verbatim>\<open>catch\<close> around
  one pass (a rejected \<^verbatim>\<open>fetch\<close>, a throwing \<^verbatim>\<open>new URL\<close>), leaves the loop with the state
  as it is. A missing or empty \<^verbatim>\<open>location\<close> is falsy.
\<close>

function follow_redirects ::
  "network \<Rightarrow> nat \<Rightarrow> string \<Rightarrow> string \<Rightarrow> string list \<Rightarrow> string \<times> string list" where
  "follow_redirects net attempts nextUrl currentUrl chain =
     (if attempts < maxRedirects \<and> elapsed net attempts < totalTimeLimit
      then (case head net nextUrl of
              FetchFailed \<Rightarrow> (currentUrl, chain)
            | Response status location \<Rightarrow>
                if status \<ge> 300 \<and> status < 400
                then (case location of
                        None \<Rightarrow> (currentUrl, chain)
                      | Some loc \<Rightarrow>
                          if loc = [] then (currentUrl, chain)
                          else (case redirect_target net loc nextUrl of
                                  None \<Rightarrow> (currentUrl, chain)
                                | Some redirectUrl \<Rightarrow>
                                    if redirectUrl \<in> set chain then (currentUrl, chain)
                                    else follow_redirects net (attempts + 1) redirectUrl
                                           redirectUrl (chain @ [redirectUrl])))
                else (currentUrl, chain))
      else (currentUrl, chain))"
  by pat_completeness auto
termination
  by (relation "measure (\<lambda>(net, attempts, nextUrl, currentUrl, chain). maxRedirects - attempts)")
     auto

declare follow_redirects.simps [simp del]

record RedirectInfo =
  finalUrl :: string
  redirectChain :: "string list"
  isShortened :: bool

text \<open>
  The function. Its first \<^verbatim>\<open>try\<close> parses the URL and flags a shortener host; where the
  parser throws it returns at once. The \<^verbatim>\<open>catch\<close> of the second \<^verbatim>\<open>try\<close> is not reached:
  every statement of the loop that can throw stands inside the loop's own \<^verbatim>\<open>try\<close>.
\<close>

definition resolveURLRedirects :: "network \<Rightarrow> string \<Rightarrow> RedirectInfo" where
  "resolveURLRedirects net u =
     (case parseURL net u of
        None \<Rightarrow> \<lparr>finalUrl = u, redirectChain = [u], isShortened = False\<rparr>
      | Some urlObj \<Rightarrow>
          (let r = follow_redirects net 0 u u [u]
           in \<lparr>finalUrl = fst r, redirectChain = snd r,
               isShortened = is_shortener_host (toLowerCase (hostname urlObj))\<rparr>))"

section \<open>The arbiter gateway and the routes\<close>

text \<open>
  \<^verbatim>\<open>generateObject\<close> is the external model. What it does on one call is a value: it
  answers with a verdict and an explanation, or the awaited promise rejects with an error
  (its \<^verbatim>\<open>name\<close> and \<^verbatim>\<open>message\<close>). In the URL gateway the call races an 18-second timer
  whose rejection is the error \<open>gateway_timeout\<close>.
\<close>

datatype 'v generated = Answered 'v string | Rejected string string

definition gateway_timeout :: "'v generated" where
  "gateway_timeout = Rejected ''Error'' ''Gemini analysis timeout''"

text \<open>\<^verbatim>\<open>getGeminiAnalysis\<close> (email): \<open>apiKey\<close> tells whether the environment variable is set;
  \<open>generate\<close> is the model, called with the address and the local findings.\<close>

definition getGeminiAnalysis ::
  "bool \<Rightarrow> (string \<Rightarrow> SpamCheckResult \<Rightarrow> email_verdict generated) \<Rightarrow> string \<Rightarrow> SpamCheckResult
     \<Rightarrow> email_verdict \<times> message" where
  "getGeminiAnalysis apiKey generate em localFindings =
     (if \<not> apiKey then (Suspicious, KeyMissingSetVariable)
      else (case generate em localFindings of
              Answered verdict explanation \<Rightarrow> (verdict, ArbiterExplanation explanation)
            | Rejected name msg \<Rightarrow> (Suspicious, AnalysisErrorTryAgain)))"

text \<open>\<^verbatim>\<open>getGeminiURLAnalysis\<close>: the same, with two texts for the two kinds of error.\<close>

definition getGeminiURLAnalysis ::
  "bool \<Rightarrow> (string \<Rightarrow> URLCheckResult \<Rightarrow> url_level generated) \<Rightarrow> string \<Rightarrow> URLCheckResult
     \<Rightarrow> url_level \<times> message" where
  "getGeminiURLAnalysis apiKey generate u localFindings =
     (if \<not> apiKey then (UrlSuspicious, KeyMissingLocalOnly)
      else (case generate u localFindings of
              Answered verdict explanation \<Rightarrow> (verdict, ArbiterExplanation explanation)
            | Rejected name msg \<Rightarrow>
                if name = ''AbortError'' \<or> includes_str msg ''timeout''
                then (UrlSuspicious, AnalysisTimedOut)
                else (UrlSuspicious, AnalysisErrorVerifyManually)))"

text \<open>
  The email route after the request has been validated. Without an API key it returns the
  local result with the verdict read off the local risk level. \<^verbatim>\<open>getGeminiAnalysis\<close>
  catches every error itself, so the route's own \<^verbatim>\<open>catch\<close> (status 500) is not reached.
\<close>

definition local_email_verdict :: "email_level \<Rightarrow> email_verdict" where
  "local_email_verdict level =
     (if level = Invalid then Fake else if level = Risky then Suspicious else Legitimate)"

definition assemble_email :: "string \<Rightarrow> SpamCheckResult \<Rightarrow> email_verdict \<times> message \<Rightarrow> SpamCheckResult" where
  "assemble_email em localResult geminiVerdictData =
     \<lparr>email = em,
      isSpam = (fst geminiVerdictData = Fake \<or> fst geminiVerdictData = Suspicious),
      riskLevel = (if fst geminiVerdictData = Fake then Invalid
                   else if fst geminiVerdictData = Suspicious then Risky else Safe),
      spamScore = (if fst geminiVerdictData = Fake then 85
                   else if fst geminiVerdictData = Suspicious then 60 else 20),
      indicators = indicators localResult,
      reason = snd geminiVerdictData,
      aiAnalysis = Some (snd geminiVerdictData),
      geminiVerdict = Some (fst geminiVerdictData)\<rparr>"

definition POST_email ::
  "bool \<Rightarrow> (string \<Rightarrow> SpamCheckResult \<Rightarrow> email_verdict generated) \<Rightarrow> string \<Rightarrow> SpamCheckResult" where
  "POST_email apiKey generate em =
     (let localResult = performLocalSpamDetection em
      in if \<not> apiKey
         then localResult\<lparr>aiAnalysis := Some KeyMissingLocalOnly,
                          geminiVerdict := Some (local_email_verdict (riskLevel localResult))\<rparr>
         else assemble_email em localResult (getGeminiAnalysis apiKey generate em localResult))"

text \<open>
  The URL route after the request has been validated. \<open>redirectDeadline\<close> tells whether
  the route's 5-second timer won the race against the resolver, \<open>arbiterDeadline\<close> whether
  its 22-second timer won the race against the gateway; then the route's \<^verbatim>\<open>catch\<close> takes
  the level and the reason of the local analysis. The gateway catches every error and its
  own timer runs 18 seconds, so that this \<^verbatim>\<open>catch\<close> is there in the code but the timer
  that leads to it is not expected to win. Nothing inside the inner \<^verbatim>\<open>try\<close> throws, so
  the answer always has status 200.
\<close>

definition redirect_step :: "network \<Rightarrow> bool \<Rightarrow> string \<Rightarrow> RedirectInfo" where
  "redirect_step net redirectDeadline u =
     (if redirectDeadline then \<lparr>finalUrl = u, redirectChain = [u], isShortened = False\<rparr>
      else resolveURLRedirects net u)"

text \<open>The local analysis of \<^verbatim>\<open>urlToAnalyze\<close>, then the redirect fields and the
  \<^verbatim>\<open>unshift\<close> on its indicator list.\<close>

definition local_step :: "network \<Rightarrow> RedirectInfo \<Rightarrow> URLCheckResult" where
  "local_step net redirectInfo =
     (let urlToAnalyze = finalUrl redirectInfo;
          localResult = performLocalURLAnalysis (parseURL net) urlToAnalyze;
          localResult = localResult\<lparr>url_redirectChain := Some (redirectChain redirectInfo),
                                    finalDestination := Some (finalUrl redirectInfo),
                                    url_isShortened := Some (isShortened redirectInfo)\<rparr>
      in if isShortened redirectInfo \<and> length (redirectChain redirectInfo) > 1
         then localResult\<lparr>url_indicators :=
                ShortenedRedirect (finalUrl redirectInfo) # url_indicators localResult\<rparr>
         else localResult)"

definition display_score :: "url_level \<Rightarrow> int" where
  "display_score verdict =
     (if verdict = UrlDangerous then 85 else if verdict = UrlSuspicious then 60 else 15)"

definition assemble_url ::
  "string \<Rightarrow> RedirectInfo \<Rightarrow> URLCheckResult \<Rightarrow> url_level \<times> message \<Rightarrow> URLCheckResult" where
  "assemble_url u redirectInfo localResult geminiVerdictData =
     \<lparr>url = u,
      isSafe = (fst geminiVerdictData = UrlSafe),
      url_riskLevel = fst geminiVerdictData,
      riskScore = display_score (fst geminiVerdictData),
      url_indicators = url_indicators localResult,
      url_redirectChain = Some (redirectChain redirectInfo),
      finalDestination = Some (finalUrl redirectInfo),
      url_isShortened = Some (isShortened redirectInfo),
      url_reason = snd geminiVerdictData,
      url_aiAnalysis = Some (snd geminiVerdictData),
      url_geminiVerdict = Some (fst geminiVerdictData)\<rparr>"

definition POST_url ::
  "network \<Rightarrow> bool \<Rightarrow> bool \<Rightarrow> (string \<Rightarrow> URLCheckResult \<Rightarrow> url_level generated) \<Rightarrow> bool \<Rightarrow> string
     \<Rightarrow> URLCheckResult" where
  "POST_url net redirectDeadline apiKey generate arbiterDeadline u =
     (let redirectInfo = redirect_step net redirectDeadline u;
          localResult = local_step net redirectInfo
      in if \<not> apiKey
         then localResult\<lparr>url_aiAnalysis := Some KeyMissingLocalOnly,
                          url_geminiVerdict := Some (url_riskLevel localResult)\<rparr>
         else assemble_url u redirectInfo localResult
                (if arbiterDeadline then (url_riskLevel localResult, url_reason localResult)
                 else getGeminiURLAnalysis apiKey generate (finalUrl redirectInfo) localResult))"

section \<open>Auxiliary definitions\<close>

text \<open>
  \<open>append_fired out\<close> pushes the indicators of \<open>out\<close> and adds their weights; a rule is
  an \<open>emitter\<close> when all it does to the accumulator is to append some list of weighted
  indicators, each with a weight that is not negative and an indicator that satisfies
  \<open>Q\<close>.
\<close>

definition append_fired :: "('i \<times> int) list \<Rightarrow> 'i acc \<Rightarrow> 'i acc" where
  "append_fired out a =
     a\<lparr>acc_indicators := acc_indicators a @ map fst out,
       acc_score := acc_score a + sum_list (map snd out),
       acc_fired := acc_fired a @ out\<rparr>"

definition emitter :: "('i \<Rightarrow> bool) \<Rightarrow> ('i acc \<Rightarrow> 'i acc) \<Rightarrow> bool" where
  "emitter Q r = (\<exists>out. (\<forall>a. r a = append_fired out a) \<and> (\<forall>p \<in> set out. Q (fst p) \<and> 0 \<le> snd p))"

fun is_fuzzy :: "indicator \<Rightarrow> bool" where
  "is_fuzzy (TyposquattingFuzzy domainName legitName distance) = True"
| "is_fuzzy other = False"

abbreviation quiet :: "(indicator acc \<Rightarrow> indicator acc) \<Rightarrow> bool" where
  "quiet \<equiv> emitter (\<lambda>i. \<not> is_fuzzy i)"

abbreviation plain :: "(url_indicator acc \<Rightarrow> url_indicator acc) \<Rightarrow> bool" where
  "plain \<equiv> emitter (\<lambda>i. i \<noteq> UrlShortener)"

text \<open>The name of a domain: its first label, \<^verbatim>\<open>d.split(".")[0]\<close>. The candidate name of
  an address is the name of its base domain.\<close>

definition brand_name :: "string \<Rightarrow> string" where
  "brand_name d = first_part (split_on CHR ''.'' d)"

definition candidate_name :: "string \<Rightarrow> string" where
  "candidate_name domain = brand_name (join_dot (slice_last2 (split_on CHR ''.'' domain)))"

text \<open>The first brand of the table, in its order, that the fuzzy test accepts, and what
  the brand loop then pushes for it.\<close>

fun first_fuzzy :: "string \<Rightarrow> (string \<times> string list) list \<Rightarrow> string option" where
  "first_fuzzy domainName [] = None"
| "first_fuzzy domainName ((legitimate, typos) # rest) =
     (if fuzzy_hit domainName (brand_name legitimate) then Some (brand_name legitimate)
      else first_fuzzy domainName rest)"

definition fuzzy_output :: "string \<Rightarrow> (string \<times> string list) list \<Rightarrow> (indicator \<times> int) list" where
  "fuzzy_output domainName brands =
     (case first_fuzzy domainName brands of
        None \<Rightarrow> []
      | Some legitName \<Rightarrow>
          [(TyposquattingFuzzy domainName legitName (levenshteinDistance domainName legitName), 55)])"

definition shortener_output :: "string \<Rightarrow> (url_indicator \<times> int) list" where
  "shortener_output domain = (if is_shortener_host domain then [(UrlShortener, 40)] else [])"

text \<open>
  Runs of the redirect loop. \<open>in_budget net attempts\<close> is the loop condition;
  \<open>redirects_to net page target\<close> says that the request to \<open>page\<close> is answered with a
  status from 300 to 399 and a non-empty \<^verbatim>\<open>location\<close> that stands for \<open>target\<close>;
  \<open>visited net attempts pages\<close> says that each page of the list, requested in turn from
  pass number \<open>attempts\<close> on, is requested inside the budget and redirects to the next
  one (nothing is said about the last page).
\<close>

definition in_budget :: "network \<Rightarrow> nat \<Rightarrow> bool" where
  "in_budget net attempts = (attempts < maxRedirects \<and> elapsed net attempts < totalTimeLimit)"

definition redirects_to :: "network \<Rightarrow> string \<Rightarrow> string \<Rightarrow> bool" where
  "redirects_to net page target =
     (case head net page of
        FetchFailed \<Rightarrow> False
      | Response status location \<Rightarrow>
          300 \<le> status \<and> status < 400
          \<and> (case location of
                None \<Rightarrow> False
              | Some loc \<Rightarrow> loc \<noteq> [] \<and> redirect_target net loc page = Some target))"

fun visited :: "network \<Rightarrow> nat \<Rightarrow> string list \<Rightarrow> bool" where
  "visited net attempts [] = False"
| "visited net attempts [page] = True"
| "visited net attempts (page # target # rest) =
     (in_budget net attempts \<and> redirects_to net page target
      \<and> visited net (Suc attempts) (target # rest))"

text \<open>
  Example environments. \<open>example_parse\<close> gives the parsed form of the URLs used below,
  as the platform's parser returns it; every other string is one it rejects.
  \<open>shortener_network\<close> answers the short link with two redirects that end at
  \<^verbatim>\<open>https://example.com\<close>; in \<open>cycle_network\<close> two pages redirect to each other; in
  \<open>broken_hop_network\<close> the short link redirects to a page whose request is rejected.
  \<open>failing_model\<close> is a model whose call is rejected with an error.
\<close>

definition https_page :: "string \<Rightarrow> string \<Rightarrow> url_parts" where
  "https_page host path =
     \<lparr>hostname = host, protocol = ''https:'', pathname = path, searchKeys = [], port = []\<rparr>"

definition example_parse :: "string \<Rightarrow> url_parts option" where
  "example_parse =
     map_of [(''https://best.com/'', https_page ''best.com'' ''/''),
             (''https://bit.ly/abc123'', https_page ''bit.ly'' ''/abc123''),
             (''https://hop.example/x'', https_page ''hop.example'' ''/x''),
             (''https://example.com'', https_page ''example.com'' ''/''),
             (''https://a.example/'', https_page ''a.example'' ''/''),
             (''https://b.example/'', https_page ''b.example'' ''/'')]"

definition head_table :: "(string \<times> head_response) list \<Rightarrow> string \<Rightarrow> head_response" where
  "head_table t u = (case map_of t u of None \<Rightarrow> Response 200 None | Some r \<Rightarrow> r)"

definition shortener_network :: network where
  "shortener_network =
     \<lparr>parseURL = example_parse,
      head = head_table [(''https://bit.ly/abc123'', Response 301 (Some ''https://hop.example/x'')),
                         (''https://hop.example/x'', Response 302 (Some ''https://example.com''))],
      resolveRelative = (\<lambda>location base. None),
      elapsed = (\<lambda>k. int k * 100)\<rparr>"

definition cycle_network :: network where
  "cycle_network =
     \<lparr>parseURL = example_parse,
      head = head_table [(''https://a.example/'', Response 302 (Some ''https://b.example/'')),
                         (''https://b.example/'', Response 302 (Some ''https://a.example/''))],
      resolveRelative = (\<lambda>location base. None),
      elapsed = (\<lambda>k. int k * 100)\<rparr>"


definition failing_model :: "string \<Rightarrow> 'r \<Rightarrow> 'v generated" where
  "failing_model u findings = Rejected ''Error'' ''fetch failed''"

definition timing_out_model :: "string \<Rightarrow> 'r \<Rightarrow> 'v generated" where
  "timing_out_model u findings = gateway_timeout"

text \<open>
  The split the specification describes, for comparison with \<open>email_parts\<close>: the text
  before the last occurrence of the separator and the text after it.
\<close>

definition split_at_last :: "char \<Rightarrow> string \<Rightarrow> (string \<times> string) option" where
  "split_at_last d s =
     (if d \<in> set s
      then Some (rev (tl (dropWhile (\<lambda>c. c \<noteq> d) (rev s))), rev (takeWhile (\<lambda>c. c \<noteq> d) (rev s)))
      else None)"

text \<open>
  The Levenshtein distance as the specification of \<^verbatim>\<open>levenshteinDistance\<close>:
  \<open>lev_prefix a b i j\<close> is the distance between the first \<open>i\<close> characters of \<open>a\<close> and the
  first \<open>j\<close> characters of \<open>b\<close>, by the usual recurrence (delete, insert, or substitute
  the last character).
\<close>

fun lev_prefix :: "string \<Rightarrow> string \<Rightarrow> nat \<Rightarrow> nat \<Rightarrow> nat" where
  "lev_prefix a b 0 j = j"
| "lev_prefix a b (Suc i) 0 = Suc i"
| "lev_prefix a b (Suc i) (Suc j) =
     min (min (lev_prefix a b i (Suc j) + 1) (lev_prefix a b (Suc i) j + 1))
         (lev_prefix a b i j + (if a ! i = b ! j then 0 else 1))"

text \<open>
  For the proof that the matrix loops compute it: \<open>mat_of f h w\<close> is the matrix of \<open>h\<close>
  rows and \<open>w\<close> columns that holds \<open>f j i\<close> in row \<open>j\<close>, column \<open>i\<close>; \<open>part a b j k\<close> is the
  content of the matrix when the rows before \<open>j\<close> are filled and row \<open>j\<close> is filled up to
  column \<open>k\<close>.
\<close>

definition mat_of :: "(nat \<Rightarrow> nat \<Rightarrow> nat) \<Rightarrow> nat \<Rightarrow> nat \<Rightarrow> nat list list" where
  "mat_of f h w = map (\<lambda>j. map (\<lambda>i. f j i) [0..<w]) [0..<h]"

definition part :: "string \<Rightarrow> string \<Rightarrow> nat \<Rightarrow> nat \<Rightarrow> nat \<Rightarrow> nat \<Rightarrow> nat" where
  "part a b j k r c = (if r = 0 \<or> c = 0 \<or> r < j \<or> (r = j \<and> c \<le> k) then lev_prefix a b c r else 0)"

section \<open>The rules only append weighted indicators\<close>

lemma append_fired_Nil: "append_fired [] a = a"
  by (simp add: append_fired_def)

lemma append_fired_append: "append_fired ys (append_fired xs a) = append_fired (xs @ ys) a"
  by (simp add: append_fired_def)

lemma fire_append_fired: "fire i w a = append_fired [(i, w)] a"
  by (simp add: fire_def append_fired_def)

lemma emitter_skip: "emitter Q (\<lambda>a. a)"
  unfolding emitter_def by (rule exI [of _ "[]"]) (simp add: append_fired_Nil)

lemma emitter_fire: "Q i \<Longrightarrow> 0 \<le> w \<Longrightarrow> emitter Q (fire i w)"
  unfolding emitter_def by (rule exI [of _ "[(i, w)]"]) (simp add: fire_append_fired)

lemma emitter_if: "(c \<Longrightarrow> emitter Q f) \<Longrightarrow> (\<not> c \<Longrightarrow> emitter Q g) \<Longrightarrow> emitter Q (\<lambda>a. if c then f a else g a)"
  by (cases c) simp_all

lemma emitter_comp:
  assumes "emitter Q f" and "emitter Q g"
  shows "emitter Q (\<lambda>a. g (f a))"
proof -
  from assms obtain xs ys where
    f: "\<forall>a. f a = append_fired xs a" "\<forall>p \<in> set xs. Q (fst p) \<and> 0 \<le> snd p" and
    g: "\<forall>a. g a = append_fired ys a" "\<forall>p \<in> set ys. Q (fst p) \<and> 0 \<le> snd p"
    unfolding emitter_def by blast
  show ?thesis
    unfolding emitter_def
    by (rule exI [of _ "xs @ ys"]) (use f g in \<open>auto simp: append_fired_append\<close>)
qed

lemma emitter_fold:
  assumes "\<And>x. x \<in> set xs \<Longrightarrow> emitter Q (f x)"
  shows "emitter Q (fold f xs)"
  using assms
proof (induction xs)
  case Nil
  show ?case using emitter_skip [of Q] by (simp add: id_def)
next
  case (Cons x xs)
  have "emitter Q (\<lambda>a. fold f xs (f x a))"
    by (rule emitter_comp) (use Cons in auto)
  then show ?case by (simp add: comp_def)
qed

lemma quiet_check_disposable: "quiet (check_disposable domain)"
  unfolding check_disposable_def Let_def by (intro emitter_if emitter_fire emitter_skip) simp_all

lemma quiet_check_corporate: "quiet (check_corporate username domain)"
  unfolding check_corporate_def Let_def by (intro emitter_if emitter_fire emitter_skip) simp_all

lemma quiet_check_homoglyph: "quiet (check_homoglyph em)"
  unfolding check_homoglyph_def Let_def by (intro emitter_if emitter_fire emitter_skip) simp_all

lemma quiet_check_keywords: "quiet (check_keywords username)"
  unfolding check_keywords_def Let_def by (intro emitter_if emitter_fire emitter_skip) simp_all

lemma quiet_check_tld: "quiet (check_tld domainParts)"
  unfolding check_tld_def Let_def by (intro emitter_if emitter_fire emitter_skip) simp_all

lemma quiet_check_shortener: "quiet (check_shortener baseDomain)"
  unfolding check_shortener_def Let_def by (intro emitter_if emitter_fire emitter_skip) simp_all

lemma quiet_check_complex: "quiet (check_complex domainParts)"
  unfolding check_complex_def Let_def by (intro emitter_if emitter_fire emitter_skip) simp_all

lemma quiet_check_confusion: "quiet (check_confusion domain)"
  unfolding check_confusion_def Let_def by (intro emitter_if emitter_fire emitter_skip) simp_all

lemma quiet_check_subdomain_brand: "quiet (check_subdomain_brand subdomain)"
  unfolding check_subdomain_brand_def Let_def by (intro emitter_if emitter_fire emitter_skip) simp_all

lemma quiet_check_brand_hyphen: "quiet (check_brand_hyphen domain)"
  unfolding check_brand_hyphen_def Let_def by (intro emitter_if emitter_fire emitter_skip) simp_all

lemma quiet_check_short_username: "quiet (check_short_username username)"
  unfolding check_short_username_def Let_def by (intro emitter_if emitter_fire emitter_skip) simp_all

lemma quiet_check_long_username: "quiet (check_long_username username)"
  unfolding check_long_username_def Let_def by (intro emitter_if emitter_fire emitter_skip) simp_all

lemma quiet_check_generic: "quiet (check_generic username domain)"
  unfolding check_generic_def Let_def by (intro emitter_if emitter_fire emitter_skip) simp_all

lemma quiet_check_mismatch: "quiet (check_mismatch username domain)"
  unfolding check_mismatch_def Let_def by (intro emitter_if emitter_fire emitter_skip) simp_all

lemma quiet_check_aliasing: "quiet (check_aliasing username)"
  unfolding check_aliasing_def Let_def by (intro emitter_if emitter_fire emitter_skip) simp_all

lemma quiet_check_specials: "quiet (check_specials username)"
  unfolding check_specials_def Let_def by (intro emitter_if emitter_fire emitter_skip) simp_all

lemma quiet_check_punycode: "quiet (check_punycode domain)"
  unfolding check_punycode_def Let_def by (intro emitter_if emitter_fire emitter_skip) simp_all

lemma quiet_check_ip: "quiet (check_ip domain)"
  unfolding check_ip_def Let_def by (intro emitter_if emitter_fire emitter_skip) simp_all

lemma quiet_check_service_id: "quiet (check_service_id username)"
  unfolding check_service_id_def Let_def by (intro emitter_if emitter_fire emitter_skip) simp_all

lemma quiet_check_hyphens: "quiet (check_hyphens domain)"
  unfolding check_hyphens_def Let_def by (intro emitter_if emitter_fire emitter_skip) simp_all

lemma quiet_check_mixed_case: "quiet (check_mixed_case domain)"
  unfolding check_mixed_case_def Let_def by (intro emitter_if emitter_fire emitter_skip) simp_all

lemma quiet_check_vowelless: "quiet (check_vowelless baseDomain)"
  unfolding check_vowelless_def Let_def by (intro emitter_if emitter_fire emitter_skip) simp_all

lemma quiet_check_numbers: "quiet (check_numbers em)"
  unfolding check_numbers_def
  by (cases "regex_first (m_rep 5 None isDigit) em") (simp_all add: emitter_skip emitter_fire)

lemma quiet_check_repeating: "quiet (check_repeating em)"
  unfolding check_repeating_def
  by (cases "regex_first (m_same_again 4) em") (simp_all add: emitter_skip emitter_fire)

lemma quiet_check_combo: "quiet (check_combo domain)"
  unfolding check_combo_def by (intro emitter_fold) (auto simp:  intro!: emitter_if emitter_fire emitter_skip)

lemma quiet_check_substitution: "quiet (check_substitution baseDomain)"
  unfolding check_substitution_def by (intro emitter_fold) (auto simp:  intro!: emitter_if emitter_fire emitter_skip)

lemma quiet_check_homoglyph_domain: "quiet (check_homoglyph_domain domain)"
  unfolding check_homoglyph_domain_def by (intro emitter_fold) (auto simp:  intro!: emitter_if emitter_fire emitter_skip)

lemma quiet_check_bec: "quiet (check_bec em)"
  unfolding check_bec_def by (intro emitter_fold) (auto simp: BECPatterns_def intro!: emitter_if emitter_fire emitter_skip)

lemma quiet_check_expired: "quiet (check_expired domain)"
  unfolding check_expired_def by (intro emitter_fold) (auto simp:  intro!: emitter_if emitter_fire emitter_skip)


lemma quiet_check_keyboard: "quiet (check_keyboard baseDomain brands)"
proof (induction brands)
  case Nil
  have "check_keyboard baseDomain [] = (\<lambda>a. a)" by (rule ext) simp
  then show ?case by (simp add: emitter_skip)
next
  case (Cons entry brands)
  obtain legitimate typos where entry: "entry = (legitimate, typos)" by (cases entry)
  have "check_keyboard baseDomain (entry # brands) =
        (\<lambda>a. if length (first_part (split_on CHR ''.'' legitimate))
                   = length (first_part (split_on CHR ''.'' baseDomain))
                 \<and> proximityMatches (first_part (split_on CHR ''.'' legitimate))
                      (first_part (split_on CHR ''.'' baseDomain)) = 1
              then fire (KeyboardProximity (first_part (split_on CHR ''.'' baseDomain))
                           (first_part (split_on CHR ''.'' legitimate))) 50 a
              else check_keyboard baseDomain brands a)"
    by (rule ext) (simp add: entry Let_def)
  then show ?case
    using Cons.IH by (auto intro!: emitter_if emitter_fire)
qed

lemma quiet_check_suffix: "quiet (check_suffix domain suffixes)"
proof (induction suffixes)
  case Nil
  have "check_suffix domain [] = (\<lambda>a. a)" by (rule ext) simp
  then show ?case by (simp add: emitter_skip)
next
  case (Cons suffix suffixes)
  have "check_suffix domain (suffix # suffixes) =
        (\<lambda>a. if includes_str domain (''-'' @ suffix) \<or> includes_str domain (suffix @ ''-'')
              then fire (SuspiciousSuffix suffix) 40 a
              else check_suffix domain suffixes a)"
    by (rule ext) simp
  then show ?case
    using Cons.IH by (auto intro!: emitter_if emitter_fire)
qed

lemma check_brands_output:
  "\<exists>out. (\<forall>a. check_brands domain baseDomain brands a = append_fired out a)
       \<and> (\<forall>p \<in> set out. 0 \<le> snd p)
       \<and> filter (\<lambda>p. is_fuzzy (fst p)) out = fuzzy_output (brand_name baseDomain) brands"
proof (induction brands)
  case Nil
  show ?case
    by (rule exI [of _ "[]"]) (simp add: append_fired_Nil fuzzy_output_def)
next
  case (Cons entry brands)
  obtain legitimate typos where entry: "entry = (legitimate, typos)" by (cases entry)
  from Cons.IH obtain out where
    out: "\<forall>a. check_brands domain baseDomain brands a = append_fired out a"
         "\<forall>p \<in> set out. 0 \<le> snd p"
         "filter (\<lambda>p. is_fuzzy (fst p)) out = fuzzy_output (brand_name baseDomain) brands"
    by blast
  define exact where "exact =
    (if domain \<in> set typos \<or> baseDomain \<in> set typos
     then [(TyposquattingConfirmed domain legitimate, 75::int)] else [])"
  have exact: "(if domain \<in> set typos \<or> baseDomain \<in> set typos
                then fire (TyposquattingConfirmed domain legitimate) 75 a else a)
               = append_fired exact a" for a
    by (simp add: exact_def fire_append_fired append_fired_Nil)
  show ?case
  proof (cases "fuzzy_hit (brand_name baseDomain) (brand_name legitimate)")
    case True
    show ?thesis
      by (rule exI [of _ "exact @ [(TyposquattingFuzzy (brand_name baseDomain) (brand_name legitimate)
              (levenshteinDistance (brand_name baseDomain) (brand_name legitimate)), 55)]"])
         (use True in \<open>auto simp: entry Let_def brand_name_def [symmetric] exact fire_append_fired
              append_fired_append fuzzy_output_def exact_def\<close>)
  next
    case False
    show ?thesis
      by (rule exI [of _ "exact @ out"])
         (use False out in \<open>auto simp: entry Let_def brand_name_def [symmetric] exact
              append_fired_append fuzzy_output_def exact_def\<close>)
  qed
qed


lemma quiet_rules:
  assumes "list_all quiet rules"
  shows "quiet (fold (\<lambda>rule a. rule a) rules)"
  by (rule emitter_fold) (use assms in \<open>simp add: list_all_iff\<close>)

lemma spam_rules_split:
  "\<exists>before after.
     spam_rules em username domain =
       before @ [check_brands domain (join_dot (slice_last2 (split_on CHR ''.'' domain))) trustedBrands] @ after
     \<and> list_all quiet before \<and> list_all quiet after"
  unfolding spam_rules_def Let_def
  apply (rule exI [of _ "[check_disposable domain, check_corporate username domain]"])
  apply (rule exI [of _ "drop 3 (spam_rules em username domain)"])
  apply (simp add: spam_rules_def Let_def quiet_check_disposable quiet_check_corporate
      quiet_check_combo quiet_check_keyboard quiet_check_substitution quiet_check_homoglyph
      quiet_check_homoglyph_domain quiet_check_keywords quiet_check_bec quiet_check_numbers
      quiet_check_repeating quiet_check_tld quiet_check_shortener quiet_check_complex
      quiet_check_confusion quiet_check_suffix quiet_check_subdomain_brand quiet_check_brand_hyphen
      quiet_check_short_username quiet_check_long_username quiet_check_generic quiet_check_mismatch
      quiet_check_aliasing quiet_check_specials quiet_check_punycode quiet_check_ip
      quiet_check_service_id quiet_check_expired quiet_check_hyphens quiet_check_mixed_case
      quiet_check_vowelless)
  done

lemma email_trace:
  "\<exists>out. run_rules (spam_rules em username domain) = append_fired out empty_acc
       \<and> (\<forall>p \<in> set out. 0 \<le> snd p)
       \<and> filter (\<lambda>p. is_fuzzy (fst p)) out = fuzzy_output (candidate_name domain) trustedBrands"
proof -
  define baseDomain where "baseDomain = join_dot (slice_last2 (split_on CHR ''.'' domain))"
  obtain before after where
    split: "spam_rules em username domain
              = before @ [check_brands domain baseDomain trustedBrands] @ after"
    and q: "list_all quiet before" "list_all quiet after"
    using spam_rules_split [of em username domain] unfolding baseDomain_def by blast
  from quiet_rules [OF q(1)] obtain xs where
    xs: "\<forall>a. fold (\<lambda>rule a. rule a) before a = append_fired xs a"
        "\<forall>p \<in> set xs. \<not> is_fuzzy (fst p) \<and> 0 \<le> snd p"
    unfolding emitter_def by blast
  from quiet_rules [OF q(2)] obtain zs where
    zs: "\<forall>a. fold (\<lambda>rule a. rule a) after a = append_fired zs a"
        "\<forall>p \<in> set zs. \<not> is_fuzzy (fst p) \<and> 0 \<le> snd p"
    unfolding emitter_def by blast
  from check_brands_output [of domain baseDomain trustedBrands] obtain ys where
    ys: "\<forall>a. check_brands domain baseDomain trustedBrands a = append_fired ys a"
        "\<forall>p \<in> set ys. 0 \<le> snd p"
        "filter (\<lambda>p. is_fuzzy (fst p)) ys = fuzzy_output (brand_name baseDomain) trustedBrands"
    by blast
  have run: "run_rules (spam_rules em username domain) = append_fired (xs @ ys @ zs) empty_acc"
    by (simp add: run_rules_def split xs(1) ys(1) zs(1) append_fired_append)
  have nofz: "filter (\<lambda>p. is_fuzzy (fst p)) xs = []" "filter (\<lambda>p. is_fuzzy (fst p)) zs = []"
    using xs(2) zs(2) by (auto simp: filter_empty_conv)
  show ?thesis
    by (rule exI [of _ "xs @ ys @ zs"])
       (use run xs(2) ys(2) zs(2) nofz ys(3) in \<open>auto simp: candidate_name_def baseDomain_def\<close>)
qed


lemma plain_url_check_protocol: "plain (url_check_protocol proto)"
  unfolding url_check_protocol_def Let_def by (intro emitter_if emitter_fire emitter_skip) simp_all

lemma plain_url_check_ip: "plain (url_check_ip domain)"
  unfolding url_check_ip_def Let_def by (intro emitter_if emitter_fire emitter_skip) simp_all

lemma plain_url_check_tld: "plain (url_check_tld domain)"
  unfolding url_check_tld_def Let_def by (intro emitter_if emitter_fire emitter_skip) simp_all

lemma plain_url_check_confusion: "plain (url_check_confusion domain)"
  unfolding url_check_confusion_def Let_def by (intro emitter_if emitter_fire emitter_skip) simp_all

lemma plain_url_check_hyphens: "plain (url_check_hyphens domain)"
  unfolding url_check_hyphens_def Let_def by (intro emitter_if emitter_fire emitter_skip) simp_all

lemma plain_url_check_subdomains: "plain (url_check_subdomains domain)"
  unfolding url_check_subdomains_def Let_def by (intro emitter_if emitter_fire emitter_skip) simp_all

lemma plain_url_check_keywords: "plain (url_check_keywords u)"
  unfolding url_check_keywords_def Let_def by (intro emitter_if emitter_fire emitter_skip) simp_all

lemma plain_url_check_long_path: "plain (url_check_long_path path)"
  unfolding url_check_long_path_def Let_def by (intro emitter_if emitter_fire emitter_skip) simp_all

lemma plain_url_check_random: "plain (url_check_random path)"
  unfolding url_check_random_def Let_def by (intro emitter_if emitter_fire emitter_skip) simp_all

lemma plain_url_check_params: "plain (url_check_params paramKeys)"
  unfolding url_check_params_def Let_def by (intro emitter_if emitter_fire emitter_skip) simp_all

lemma plain_url_check_punycode: "plain (url_check_punycode domain)"
  unfolding url_check_punycode_def Let_def by (intro emitter_if emitter_fire emitter_skip) simp_all

lemma plain_url_check_at: "plain (url_check_at u)"
  unfolding url_check_at_def Let_def by (intro emitter_if emitter_fire emitter_skip) simp_all

lemma plain_url_check_port: "plain (url_check_port prt)"
  unfolding url_check_port_def Let_def by (intro emitter_if emitter_fire emitter_skip) simp_all

lemma plain_url_check_extension: "plain (url_check_extension path)"
  unfolding url_check_extension_def Let_def by (intro emitter_if emitter_fire emitter_skip) simp_all

lemma plain_url_check_data: "plain (url_check_data proto)"
  unfolding url_check_data_def Let_def by (intro emitter_if emitter_fire emitter_skip) simp_all

lemma plain_url_check_javascript: "plain (url_check_javascript proto)"
  unfolding url_check_javascript_def Let_def by (intro emitter_if emitter_fire emitter_skip) simp_all

lemma plain_url_check_brands: "plain (url_check_brands domain)"
  unfolding url_check_brands_def
  by (intro emitter_fold) (auto intro!: emitter_if emitter_fire emitter_skip)

lemma plain_rules:
  assumes "list_all plain rules"
  shows "plain (fold (\<lambda>rule a. rule a) rules)"
  by (rule emitter_fold) (use assms in \<open>simp add: list_all_iff\<close>)

lemma url_check_shortener_output:
  "url_check_shortener domain a = append_fired (shortener_output domain) a"
  by (simp add: url_check_shortener_def shortener_output_def fire_append_fired append_fired_Nil)

lemma url_rules_split:
  "\<exists>before after.
     url_rules u urlObj =
       before @ [url_check_shortener (toLowerCase (hostname urlObj))] @ after
     \<and> list_all plain before \<and> list_all plain after"
  apply (rule exI [of _ "take 2 (url_rules u urlObj)"])
  apply (rule exI [of _ "drop 3 (url_rules u urlObj)"])
  apply (simp add: url_rules_def Let_def plain_url_check_protocol plain_url_check_ip
      plain_url_check_tld plain_url_check_brands plain_url_check_confusion plain_url_check_hyphens
      plain_url_check_subdomains plain_url_check_keywords plain_url_check_long_path
      plain_url_check_random plain_url_check_params plain_url_check_punycode plain_url_check_at
      plain_url_check_port plain_url_check_extension plain_url_check_data
      plain_url_check_javascript)
  done

lemma url_trace:
  "\<exists>out. run_rules (url_rules u urlObj) = append_fired out empty_acc
       \<and> (\<forall>p \<in> set out. 0 \<le> snd p)
       \<and> filter (\<lambda>p. fst p = UrlShortener) out = shortener_output (toLowerCase (hostname urlObj))"
proof -
  obtain before after where
    split: "url_rules u urlObj
              = before @ [url_check_shortener (toLowerCase (hostname urlObj))] @ after"
    and q: "list_all plain before" "list_all plain after"
    using url_rules_split [of u urlObj] by blast
  from plain_rules [OF q(1)] obtain xs where
    xs: "\<forall>a. fold (\<lambda>rule a. rule a) before a = append_fired xs a"
        "\<forall>p \<in> set xs. fst p \<noteq> UrlShortener \<and> 0 \<le> snd p"
    unfolding emitter_def by blast
  from plain_rules [OF q(2)] obtain zs where
    zs: "\<forall>a. fold (\<lambda>rule a. rule a) after a = append_fired zs a"
        "\<forall>p \<in> set zs. fst p \<noteq> UrlShortener \<and> 0 \<le> snd p"
    unfolding emitter_def by blast
  define ys where "ys = shortener_output (toLowerCase (hostname urlObj))"
  have ys: "\<forall>p \<in> set ys. 0 \<le> snd p" "filter (\<lambda>p. fst p = UrlShortener) ys = ys"
    by (simp_all add: ys_def shortener_output_def)
  have run: "run_rules (url_rules u urlObj) = append_fired (xs @ ys @ zs) empty_acc"
    by (simp add: run_rules_def split xs(1) zs(1) url_check_shortener_output append_fired_append
        ys_def)
  have nosh: "filter (\<lambda>p. fst p = UrlShortener) xs = []" "filter (\<lambda>p. fst p = UrlShortener) zs = []"
    using xs(2) zs(2) by (auto simp: filter_empty_conv)
  show ?thesis
    by (rule exI [of _ "xs @ ys @ zs"])
       (use run xs(2) ys zs(2) nosh in \<open>auto simp: ys_def\<close>)
qed

lemma sum_list_nonneg_pairs:
  fixes out :: "('i \<times> int) list"
  shows "(\<forall>p \<in> set out. 0 \<le> snd p) \<Longrightarrow> 0 \<le> sum_list (map snd out)"
  by (induction out) auto

lemma append_fired_empty:
  "acc_indicators (append_fired out empty_acc) = map fst out"
  "acc_score (append_fired out empty_acc) = sum_list (map snd out)"
  "acc_fired (append_fired out empty_acc) = out"
  by (simp_all add: append_fired_def empty_acc_def)

lemma email_rules_sound:
  "acc_indicators (run_rules (spam_rules em username domain))
     = map fst (acc_fired (run_rules (spam_rules em username domain)))"
  "acc_score (run_rules (spam_rules em username domain))
     = sum_list (map snd (acc_fired (run_rules (spam_rules em username domain))))"
  "0 \<le> acc_score (run_rules (spam_rules em username domain))"
  using email_trace [of em username domain]
  by (auto simp: append_fired_empty sum_list_nonneg_pairs)

lemma url_rules_sound:
  "acc_indicators (run_rules (url_rules u urlObj))
     = map fst (acc_fired (run_rules (url_rules u urlObj)))"
  "acc_score (run_rules (url_rules u urlObj))
     = sum_list (map snd (acc_fired (run_rules (url_rules u urlObj))))"
  "0 \<le> acc_score (run_rules (url_rules u urlObj))"
  using url_trace [of u urlObj]
  by (auto simp: append_fired_empty sum_list_nonneg_pairs)

section \<open>Substrings and the redirect loop\<close>

lemma startsWith_iff: "startsWith s p \<longleftrightarrow> (\<exists>rest. s = p @ rest)"
  by (induction s p rule: startsWith.induct) auto

lemma anywhere_iff: "anywhere P s \<longleftrightarrow> (\<exists>before t. s = before @ t \<and> P t)"
proof (induction s)
  case Nil
  show ?case by simp
next
  case (Cons c cs)
  note IH = Cons.IH
  show ?case
  proof
    assume "anywhere P (c # cs)"
    then consider "P (c # cs)" | "anywhere P cs" by auto
    then show "\<exists>before t. c # cs = before @ t \<and> P t"
    proof cases
      case 1
      then have "c # cs = [] @ (c # cs) \<and> P (c # cs)" by simp
      then show ?thesis by blast
    next
      case 2
      with IH obtain before t where "cs = before @ t" "P t" by blast
      then have "c # cs = (c # before) @ t \<and> P t" by simp
      then show ?thesis by blast
    qed
  next
    assume "\<exists>before t. c # cs = before @ t \<and> P t"
    then obtain before t where bt: "c # cs = before @ t" "P t" by blast
    show "anywhere P (c # cs)"
    proof (cases before)
      case Nil
      with bt show ?thesis by auto
    next
      case (Cons b bs)
      with bt have "cs = bs @ t" by simp
      with bt(2) IH show ?thesis by auto
    qed
  qed
qed

lemma includes_str_iff: "includes_str s p \<longleftrightarrow> (\<exists>before after. s = before @ p @ after)"
  by (auto simp: includes_str_def anywhere_iff startsWith_iff)

lemma is_shortener_host_iff:
  "is_shortener_host domain
     \<longleftrightarrow> (\<exists>shortener \<in> set urlShorteners. \<exists>before after. domain = before @ shortener @ after)"
  by (simp add: is_shortener_host_def list_ex_iff includes_str_iff)

lemma url_fired_shortener:
  "filter (\<lambda>p. fst p = UrlShortener) (acc_fired (run_rules (url_rules u urlObj)))
     = shortener_output (toLowerCase (hostname urlObj))"
  using url_trace [of u urlObj] by (auto simp: append_fired_empty)

lemma follow_redirects_chain:
  "chain \<noteq> [] \<Longrightarrow> distinct chain \<Longrightarrow> currentUrl = last chain \<Longrightarrow>
     distinct (snd (follow_redirects net attempts nextUrl currentUrl chain))
     \<and> fst (follow_redirects net attempts nextUrl currentUrl chain)
         = last (snd (follow_redirects net attempts nextUrl currentUrl chain))
     \<and> hd (snd (follow_redirects net attempts nextUrl currentUrl chain)) = hd chain
     \<and> snd (follow_redirects net attempts nextUrl currentUrl chain) \<noteq> []"
proof (induction net attempts nextUrl currentUrl chain rule: follow_redirects.induct)
  case (1 net attempts nextUrl currentUrl chain)
  show ?case
    apply (subst (1 2 3 4 5) follow_redirects.simps)
    using 1
    apply (auto split: head_response.split option.split)
    done
qed

text \<open>One pass of the loop: it goes on to the target of a redirect that is new, and it
  stops where the target is in the chain, the budget is used up or the request fails. Along
  a sequence of followed redirects the loop reaches the last page with the whole sequence
  as its chain.\<close>

lemma follow_redirects_step:
  "in_budget net attempts \<Longrightarrow> redirects_to net page target \<Longrightarrow> target \<notin> set chain \<Longrightarrow>
     follow_redirects net attempts page currentUrl chain
       = follow_redirects net (Suc attempts) target target (chain @ [target])"
  by (subst follow_redirects.simps)
     (auto simp: in_budget_def redirects_to_def split: head_response.splits option.splits)

lemma follow_redirects_cycle:
  "in_budget net attempts \<Longrightarrow> redirects_to net page target \<Longrightarrow> target \<in> set chain \<Longrightarrow>
     follow_redirects net attempts page currentUrl chain = (currentUrl, chain)"
  by (subst follow_redirects.simps)
     (auto simp: in_budget_def redirects_to_def split: head_response.splits option.splits)

lemma follow_redirects_stop:
  "\<not> in_budget net attempts \<or> head net page = FetchFailed \<Longrightarrow>
     follow_redirects net attempts page currentUrl chain = (currentUrl, chain)"
  by (subst follow_redirects.simps) (auto simp: in_budget_def)

lemma follow_redirects_along:
  "visited net attempts (page # rest) \<Longrightarrow> distinct (before @ page # rest) \<Longrightarrow>
     follow_redirects net attempts page page (before @ [page])
       = follow_redirects net (attempts + length rest) (last (page # rest)) (last (page # rest))
           (before @ page # rest)"
proof (induction rest arbitrary: attempts page before)
  case Nil
  show ?case by simp
next
  case (Cons target rest)
  from Cons.prems(1) have b: "in_budget net attempts" and r: "redirects_to net page target"
    and v: "visited net (Suc attempts) (target # rest)"
    by simp_all
  from Cons.prems(2) have n: "target \<notin> set (before @ [page])"
    and d: "distinct ((before @ [page]) @ target # rest)"
    by auto
  have "follow_redirects net attempts page page (before @ [page])
          = follow_redirects net (Suc attempts) target target ((before @ [page]) @ [target])"
    by (rule follow_redirects_step [OF b r n])
  also have "\<dots> = follow_redirects net (Suc attempts + length rest) (last (target # rest))
                     (last (target # rest)) ((before @ [page]) @ target # rest)"
    by (rule Cons.IH [OF v d])
  finally show ?case by simp
qed

lemma resolve_along:
  assumes "parseURL net u \<noteq> None" "visited net 0 (u # pages)" "distinct (u # pages)"
  shows "follow_redirects net 0 u u [u]
       = follow_redirects net (length pages) (last (u # pages)) (last (u # pages)) (u # pages)"
  using follow_redirects_along [of net 0 u pages "[]"] assms by simp

text \<open>The chain returned is a sequence of followed redirects, and where the loop stops at
  a redirect inside its budget, the target is in the chain.\<close>

lemma visited_snoc:
  "visited net k chain \<Longrightarrow> in_budget net (k + length chain - 1) \<Longrightarrow>
   redirects_to net (last chain) target \<Longrightarrow> visited net k (chain @ [target])"
proof (induction net k chain rule: visited.induct)
  case (1 net attempts)
  then show ?case by simp
next
  case (2 net attempts page)
  then show ?case by simp
next
  case (3 net attempts page target' rest)
  then show ?case by simp
qed

lemma follow_redirects_visited:
  "visited net 0 chain \<Longrightarrow> length chain = Suc attempts \<Longrightarrow> nextUrl = last chain \<Longrightarrow>
     visited net 0 (snd (follow_redirects net attempts nextUrl currentUrl chain))
     \<and> (\<forall>target. in_budget net (length (snd (follow_redirects net attempts nextUrl currentUrl chain)) - 1)
           \<and> redirects_to net (last (snd (follow_redirects net attempts nextUrl currentUrl chain))) target
         \<longrightarrow> target \<in> set (snd (follow_redirects net attempts nextUrl currentUrl chain)))"
proof (induction net attempts nextUrl currentUrl chain rule: follow_redirects.induct)
  case (1 net attempts nextUrl currentUrl chain)
  show ?case
  proof (cases "in_budget net attempts")
    case False
    then have "follow_redirects net attempts nextUrl currentUrl chain = (currentUrl, chain)"
      by (simp add: follow_redirects_stop)
    with False 1(2,3) show ?thesis by simp
  next
    case True
    show ?thesis
    proof (cases "\<exists>target. redirects_to net nextUrl target")
      case False
      then have "follow_redirects net attempts nextUrl currentUrl chain = (currentUrl, chain)"
        by (subst follow_redirects.simps)
           (auto simp: redirects_to_def split: head_response.splits option.splits)
      with False 1(2,3,4) show ?thesis by simp
    next
      case True
      then obtain target where t: "redirects_to net nextUrl target" by blast
      then obtain status loc where h: "head net nextUrl = Response status (Some loc)"
        "300 \<le> status" "status < 400" "loc \<noteq> []" "redirect_target net loc nextUrl = Some target"
        by (auto simp: redirects_to_def split: head_response.splits option.splits)
      have only: "redirects_to net nextUrl target' \<Longrightarrow> target' = target" for target'
        using h by (auto simp: redirects_to_def)
      show ?thesis
      proof (cases "target \<in> set chain")
        case True
        have "follow_redirects net attempts nextUrl currentUrl chain = (currentUrl, chain)"
          by (rule follow_redirects_cycle [OF \<open>in_budget net attempts\<close> t True])
        with True 1(2,3,4) only show ?thesis by auto
      next
        case False
        have eq: "follow_redirects net attempts nextUrl currentUrl chain
              = follow_redirects net (attempts + 1) target target (chain @ [target])"
          using follow_redirects_step [OF \<open>in_budget net attempts\<close> t False] by simp
        have v: "visited net 0 (chain @ [target])"
          using visited_snoc [of net 0 chain target] 1(2,3,4) \<open>in_budget net attempts\<close> t by simp
        have "visited net 0 (snd (follow_redirects net (attempts + 1) target target (chain @ [target])))
     \<and> (\<forall>target'. in_budget net (length (snd (follow_redirects net (attempts + 1) target target (chain @ [target]))) - 1)
           \<and> redirects_to net (last (snd (follow_redirects net (attempts + 1) target target (chain @ [target])))) target'
         \<longrightarrow> target' \<in> set (snd (follow_redirects net (attempts + 1) target target (chain @ [target]))))"
          using \<open>in_budget net attempts\<close> h False v 1(3)
          by (intro 1(1)) (auto simp: in_budget_def)
        with eq show ?thesis by simp
      qed
    qed
  qed
qed


lemma resolve_facts:
  "distinct (redirectChain (resolveURLRedirects net u))"
  "hd (redirectChain (resolveURLRedirects net u)) = u"
  "finalUrl (resolveURLRedirects net u) = last (redirectChain (resolveURLRedirects net u))"
  "redirectChain (resolveURLRedirects net u) \<noteq> []"
  using follow_redirects_chain [of "[u]" u net 0 u]
  by (simp_all add: resolveURLRedirects_def Let_def split: option.split)

lemma resolve_visited:
  "visited net 0 (redirectChain (resolveURLRedirects net u))"
  "parseURL net u \<noteq> None \<Longrightarrow>
     in_budget net (length (redirectChain (resolveURLRedirects net u)) - 1) \<Longrightarrow>
     redirects_to net (last (redirectChain (resolveURLRedirects net u))) target \<Longrightarrow>
     target \<in> set (redirectChain (resolveURLRedirects net u))"
  using follow_redirects_visited [of net "[u]" 0 u u]
  by (auto simp: resolveURLRedirects_def Let_def split: option.split)

section \<open>The routes\<close>

lemma local_step_fields:
  "url_riskLevel (local_step net info)
     = url_riskLevel (performLocalURLAnalysis (parseURL net) (finalUrl info))"
  "riskScore (local_step net info)
     = riskScore (performLocalURLAnalysis (parseURL net) (finalUrl info))"
  "isSafe (local_step net info) = isSafe (performLocalURLAnalysis (parseURL net) (finalUrl info))"
  "url_reason (local_step net info)
     = url_reason (performLocalURLAnalysis (parseURL net) (finalUrl info))"
  "url (local_step net info) = url (performLocalURLAnalysis (parseURL net) (finalUrl info))"
  "url_redirectChain (local_step net info) = Some (redirectChain info)"
  "finalDestination (local_step net info) = Some (finalUrl info)"
  "url_isShortened (local_step net info) = Some (isShortened info)"
  "url_indicators (local_step net info)
     = (if isShortened info \<and> length (redirectChain info) > 1
        then ShortenedRedirect (finalUrl info)
               # url_indicators (performLocalURLAnalysis (parseURL net) (finalUrl info))
        else url_indicators (performLocalURLAnalysis (parseURL net) (finalUrl info)))"
  by (simp_all add: local_step_def Let_def)



lemma POST_url_fields:
  "url_indicators (POST_url net redirectDeadline apiKey generate arbiterDeadline u)
     = url_indicators (local_step net (redirect_step net redirectDeadline u))"
  "url_redirectChain (POST_url net redirectDeadline apiKey generate arbiterDeadline u)
     = Some (redirectChain (redirect_step net redirectDeadline u))"
  "finalDestination (POST_url net redirectDeadline apiKey generate arbiterDeadline u)
     = Some (finalUrl (redirect_step net redirectDeadline u))"
  by (simp_all add: POST_url_def Let_def assemble_url_def local_step_fields)

lemma POST_email_indicators:
  "indicators (POST_email apiKey generate em) = indicators (performLocalSpamDetection em)"
  by (simp add: POST_email_def Let_def assemble_email_def)

section \<open>Splitting an address, and the fuzzy brand match\<close>

lemma split_on_no_sep: "d \<notin> set s \<Longrightarrow> split_on d s = [s]"
  by (induction s) auto

lemma split_on_first_sep: "d \<notin> set a \<Longrightarrow> split_on d (a @ d # b) = a # split_on d b"
  by (induction a) auto

lemma takeWhile_until: "d \<notin> set xs \<Longrightarrow> takeWhile (\<lambda>c. c \<noteq> d) (xs @ d # ys) = xs"
  by (induction xs) auto

lemma dropWhile_until: "d \<notin> set xs \<Longrightarrow> dropWhile (\<lambda>c. c \<noteq> d) (xs @ d # ys) = d # ys"
  by (induction xs) auto

lemma count_one_decompose:
  "count_char d s = 1 \<Longrightarrow> \<exists>a b. s = a @ d # b \<and> d \<notin> set a \<and> d \<notin> set b"
proof -
  assume c: "count_char d s = 1"
  then have "d \<in> set s"
    by (auto simp: count_char_def filter_empty_conv dest!: arg_cong [where f = "\<lambda>n. n = 0"])
  then obtain a b where s: "s = a @ d # b" "d \<notin> set a"
    by (meson split_list_first)
  with c have "length (filter (\<lambda>c. c = d) b) = 0"
    by (simp add: count_char_def filter_empty_conv [THEN iffD2])
  then have "d \<notin> set b" by (auto simp: filter_empty_conv)
  with s show ?thesis by blast
qed

lemma split_single_separator:
  assumes "count_char d s = 1"
  shows "\<exists>a b. split_on d s = [a, b] \<and> split_at_last d s = Some (a, b)"
proof -
  from count_one_decompose [OF assms] obtain a b where
    s: "s = a @ d # b" "d \<notin> set a" "d \<notin> set b" by blast
  have 1: "split_on d s = [a, b]"
    by (simp add: s split_on_first_sep split_on_no_sep)
  have r: "rev s = rev b @ d # rev a" by (simp add: s)
  have nb: "d \<notin> set (rev b)"
    using s(3) by simp
  have t: "takeWhile (\<lambda>c. c \<noteq> d) (rev s) = rev b"
    unfolding r by (rule takeWhile_until [OF nb])
  have dr: "dropWhile (\<lambda>c. c \<noteq> d) (rev s) = d # rev a"
    unfolding r by (rule dropWhile_until [OF nb])
  have 2: "split_at_last d s = Some (a, b)"
    by (simp add: split_at_last_def t dr) (simp add: s)
  from 1 2 show ?thesis by blast
qed

lemma toLowerChar_at: "toLowerChar c = CHR ''@'' \<longleftrightarrow> c = CHR ''@''"
proof
  assume l: "toLowerChar c = CHR ''@''"
  show "c = CHR ''@''"
  proof (rule ccontr)
    assume n: "c \<noteq> CHR ''@''"
    with l have range: "(65 \<le> codeUnit c \<and> codeUnit c \<le> 90)
        \<or> (192 \<le> codeUnit c \<and> codeUnit c \<le> 222 \<and> codeUnit c \<noteq> 215)"
      and "char_of (codeUnit c + 32) = CHR ''@''"
      by (auto simp: toLowerChar_def Let_def split: if_splits)
    then have "(of_char (char_of (codeUnit c + 32)) :: int) = of_char CHR ''@''"
      by simp
    then have "(codeUnit c + 32) mod 256 = 64"
      by simp
    with range show False by presburger
  qed
next
  assume "c = CHR ''@''"
  then show "toLowerChar c = CHR ''@''"
    by (simp add: toLowerChar_def codeUnit_def)
qed

lemma count_at_toLowerCase: "count_char CHR ''@'' (toLowerCase s) = count_char CHR ''@'' s"
  by (induction s) (auto simp: count_char_def toLowerCase_def toLowerChar_at)

lemma first_fuzzy_find:
  "first_fuzzy name brands
     = map_option (\<lambda>entry. brand_name (fst entry))
         (find (\<lambda>entry. fuzzy_hit name (brand_name (fst entry))) brands)"
  by (induction name brands rule: first_fuzzy.induct) simp_all

lemma sum_list_ge_member:
  fixes xs :: "int list"
  shows "x \<in> set xs \<Longrightarrow> \<forall>y \<in> set xs. 0 \<le> y \<Longrightarrow> x \<le> sum_list xs"
proof (induction xs)
  case Nil
  then show ?case by simp
next
  case (Cons y ys)
  have nn: "0 \<le> sum_list ys"
    using Cons.prems(2) by (simp add: sum_list_nonneg)
  show ?case
  proof (cases "x = y")
    case True
    with nn show ?thesis by simp
  next
    case False
    with Cons have "x \<le> sum_list ys" by simp
    moreover have "0 \<le> y" using Cons.prems(2) by simp
    ultimately show ?thesis by simp
  qed
qed

lemma email_fuzzy_facts:
  "filter is_fuzzy (acc_indicators (run_rules (spam_rules em username domain)))
     = map fst (fuzzy_output (candidate_name domain) trustedBrands)"
  "filter (\<lambda>p. is_fuzzy (fst p)) (acc_fired (run_rules (spam_rules em username domain)))
     = fuzzy_output (candidate_name domain) trustedBrands"
  "fuzzy_output (candidate_name domain) trustedBrands \<noteq> []
     \<Longrightarrow> 55 \<le> acc_score (run_rules (spam_rules em username domain))"
proof -
  obtain out where
    run: "run_rules (spam_rules em username domain) = append_fired out empty_acc"
    and nn: "\<forall>p \<in> set out. 0 \<le> snd p"
    and fz: "filter (\<lambda>p. is_fuzzy (fst p)) out = fuzzy_output (candidate_name domain) trustedBrands"
    using email_trace [of em username domain] by blast
  show "filter is_fuzzy (acc_indicators (run_rules (spam_rules em username domain)))
     = map fst (fuzzy_output (candidate_name domain) trustedBrands)"
    by (simp add: run append_fired_empty filter_map comp_def fz)
  show "filter (\<lambda>p. is_fuzzy (fst p)) (acc_fired (run_rules (spam_rules em username domain)))
     = fuzzy_output (candidate_name domain) trustedBrands"
    by (simp add: run append_fired_empty fz)
  show "55 \<le> acc_score (run_rules (spam_rules em username domain))"
    if ne: "fuzzy_output (candidate_name domain) trustedBrands \<noteq> []"
  proof -
    from ne obtain i where "fuzzy_output (candidate_name domain) trustedBrands = [(i, 55)]"
      by (auto simp: fuzzy_output_def split: option.splits)
    with fz have "(i, 55) \<in> set (filter (\<lambda>p. is_fuzzy (fst p)) out)" by simp
    then have "(i, 55) \<in> set out" by simp
    then have "55 \<in> set (map snd out)" by force
    moreover have "\<forall>y \<in> set (map snd out). 0 \<le> y" using nn by auto
    ultimately have "55 \<le> sum_list (map snd out)" by (rule sum_list_ge_member)
    then show ?thesis by (simp add: run append_fired_empty)
  qed
qed

section \<open>The matrix loops compute the Levenshtein distance\<close>

lemma lev_prefix_zero_right: "lev_prefix a b i 0 = i"
  by (cases i) simp_all

lemma mat_of_nth: "j < h \<Longrightarrow> i < w \<Longrightarrow> mat_of f h w ! j ! i = f j i"
  by (simp add: mat_of_def)

lemma mat_of_cong:
  "(\<And>j i. j < h \<Longrightarrow> i < w \<Longrightarrow> f j i = g j i) \<Longrightarrow> mat_of f h w = mat_of g h w"
  by (simp add: mat_of_def)

lemma set_cell_mat_of:
  assumes "j < h" and "i < w"
  shows "set_cell (mat_of f h w) j i v = mat_of (\<lambda>r c. if r = j \<and> c = i then v else f r c) h w"
proof (rule nth_equalityI)
  show "length (set_cell (mat_of f h w) j i v)
          = length (mat_of (\<lambda>r c. if r = j \<and> c = i then v else f r c) h w)"
    by (simp add: set_cell_def mat_of_def)
next
  fix r assume "r < length (set_cell (mat_of f h w) j i v)"
  then have r: "r < h" by (simp add: set_cell_def mat_of_def)
  show "set_cell (mat_of f h w) j i v ! r
          = mat_of (\<lambda>r c. if r = j \<and> c = i then v else f r c) h w ! r"
  proof (cases "r = j")
    case True
    have "(map (\<lambda>i. f j i) [0..<w])[i := v] = map (\<lambda>c. if c = i then v else f j c) [0..<w]"
      using assms(2) by (auto intro!: nth_equalityI simp: nth_list_update)
    with True assms show ?thesis by (simp add: set_cell_def mat_of_def)
  next
    case False
    with r assms show ?thesis by (simp add: set_cell_def mat_of_def)
  qed
qed

lemma init_row:
  "k \<le> w \<Longrightarrow> 0 < h \<Longrightarrow>
     fold (\<lambda>i m. set_cell m 0 i i) [0..<k] (mat_of (\<lambda>r c. 0) h w)
       = mat_of (\<lambda>r c. if r = 0 \<and> c < k then c else 0) h w"
proof (induction k)
  case 0
  show ?case by simp
next
  case (Suc k)
  then have "fold (\<lambda>i m. set_cell m 0 i i) [0..<Suc k] (mat_of (\<lambda>r c. 0) h w)
      = set_cell (mat_of (\<lambda>r c. if r = 0 \<and> c < k then c else 0) h w) 0 k k"
    by simp
  also have "\<dots> = mat_of (\<lambda>r c. if r = 0 \<and> c = k then k
                                 else if r = 0 \<and> c < k then c else 0) h w"
    using Suc.prems by (simp add: set_cell_mat_of)
  also have "\<dots> = mat_of (\<lambda>r c. if r = 0 \<and> c < Suc k then c else 0) h w"
    by (rule mat_of_cong) auto
  finally show ?case .
qed

lemma init_column:
  "k \<le> h \<Longrightarrow> 0 < w \<Longrightarrow>
     fold (\<lambda>j m. set_cell m j 0 j) [0..<k] (mat_of f h w)
       = mat_of (\<lambda>r c. if c = 0 \<and> r < k then r else f r c) h w"
proof (induction k)
  case 0
  show ?case by simp
next
  case (Suc k)
  then have "fold (\<lambda>j m. set_cell m j 0 j) [0..<Suc k] (mat_of f h w)
      = set_cell (mat_of (\<lambda>r c. if c = 0 \<and> r < k then r else f r c) h w) k 0 k"
    by simp
  also have "\<dots> = mat_of (\<lambda>r c. if r = k \<and> c = 0 then k
                                 else if c = 0 \<and> r < k then r else f r c) h w"
    using Suc.prems by (simp add: set_cell_mat_of)
  also have "\<dots> = mat_of (\<lambda>r c. if c = 0 \<and> r < Suc k then r else f r c) h w"
    by (rule mat_of_cong) auto
  finally show ?case .
qed

lemma fill_cell_step:
  assumes "0 < j" and "j < h" and "Suc k < w"
  shows "fill_cell a b j (Suc k) (mat_of (part a b j k) h w) = mat_of (part a b j (Suc k)) h w"
proof -
  obtain j' where j: "j = Suc j'" using assms(1) by (cases j) auto
  have cur: "mat_of (part a b j k) h w ! j ! (Suc k - 1) = lev_prefix a b k j"
    using assms by (simp add: mat_of_nth part_def)
  have up: "mat_of (part a b j k) h w ! (j - 1) ! Suc k = lev_prefix a b (Suc k) j'"
    using assms by (simp add: mat_of_nth part_def j)
  have diag: "mat_of (part a b j k) h w ! (j - 1) ! (Suc k - 1) = lev_prefix a b k j'"
    using assms by (simp add: mat_of_nth part_def j)
  have "fill_cell a b j (Suc k) (mat_of (part a b j k) h w)
      = set_cell (mat_of (part a b j k) h w) j (Suc k) (lev_prefix a b (Suc k) j)"
    unfolding fill_cell_def Let_def cur up diag by (simp add: j)
  also have "\<dots> = mat_of (\<lambda>r c. if r = j \<and> c = Suc k then lev_prefix a b (Suc k) j
                                 else part a b j k r c) h w"
    using assms by (simp add: set_cell_mat_of)
  also have "\<dots> = mat_of (part a b j (Suc k)) h w"
    by (rule mat_of_cong) (auto simp: part_def)
  finally show ?thesis .
qed

lemma fill_row:
  "0 < j \<Longrightarrow> j < h \<Longrightarrow> k < w \<Longrightarrow>
     fold (fill_cell a b j) [1..<Suc k] (mat_of (part a b j 0) h w) = mat_of (part a b j k) h w"
proof (induction k)
  case 0
  show ?case by simp
next
  case (Suc k)
  then have "fold (fill_cell a b j) [1..<Suc (Suc k)] (mat_of (part a b j 0) h w)
      = fill_cell a b j (Suc k) (mat_of (part a b j k) h w)"
    by simp
  with Suc.prems show ?case by (simp add: fill_cell_step)
qed

lemma fill_rows:
  "k < h \<Longrightarrow>
     fold (\<lambda>j m. fold (fill_cell a b j) [1..<Suc n] m) [1..<Suc k] (mat_of (part a b 0 0) h (Suc n))
       = mat_of (part a b k n) h (Suc n)"
proof (induction k)
  case 0
  have "mat_of (part a b 0 0) h (Suc n) = mat_of (part a b 0 n) h (Suc n)"
    by (rule mat_of_cong) (auto simp: part_def)
  then show ?case by simp
next
  case (Suc k)
  then have "fold (\<lambda>j m. fold (fill_cell a b j) [1..<Suc n] m) [1..<Suc (Suc k)]
        (mat_of (part a b 0 0) h (Suc n))
      = fold (fill_cell a b (Suc k)) [1..<Suc n] (mat_of (part a b k n) h (Suc n))"
    by simp
  also have "mat_of (part a b k n) h (Suc n) = mat_of (part a b (Suc k) 0) h (Suc n)"
    by (rule mat_of_cong) (auto simp: part_def)
  also have "fold (fill_cell a b (Suc k)) [1..<Suc n] (mat_of (part a b (Suc k) 0) h (Suc n))
      = mat_of (part a b (Suc k) n) h (Suc n)"
    by (rule fill_row) (use Suc.prems in simp_all)
  finally show ?case .
qed

lemma levenshteinDistance_lev_prefix:
  "levenshteinDistance str1 str2 = lev_prefix str1 str2 (length str1) (length str2)"
proof -
  let ?n = "length str1" and ?m = "length str2"
  have m0: "replicate (?m + 1) (replicate (?n + 1) 0) = mat_of (\<lambda>r c. 0) (Suc ?m) (Suc ?n)"
    unfolding mat_of_def by (simp only: map_replicate_const) simp
  have m1: "fold (\<lambda>i m. set_cell m 0 i i) [0..<?n + 1] (mat_of (\<lambda>r c. 0) (Suc ?m) (Suc ?n))
      = mat_of (\<lambda>r c. if r = 0 \<and> c < Suc ?n then c else 0) (Suc ?m) (Suc ?n)"
    using init_row [of "Suc ?n" "Suc ?n" "Suc ?m"] by simp
  have m2: "fold (\<lambda>j m. set_cell m j 0 j) [0..<?m + 1]
        (mat_of (\<lambda>r c. if r = 0 \<and> c < Suc ?n then c else 0) (Suc ?m) (Suc ?n))
      = mat_of (part str1 str2 0 0) (Suc ?m) (Suc ?n)"
  proof -
    have "fold (\<lambda>j m. set_cell m j 0 j) [0..<?m + 1]
        (mat_of (\<lambda>r c. if r = 0 \<and> c < Suc ?n then c else 0) (Suc ?m) (Suc ?n))
      = mat_of (\<lambda>r c. if c = 0 \<and> r < Suc ?m then r
                       else if r = 0 \<and> c < Suc ?n then c else 0) (Suc ?m) (Suc ?n)"
      using init_column [of "Suc ?m" "Suc ?m" "Suc ?n"] by simp
    also have "\<dots> = mat_of (part str1 str2 0 0) (Suc ?m) (Suc ?n)"
      by (rule mat_of_cong) (auto simp: part_def lev_prefix_zero_right)
    finally show ?thesis .
  qed
  have m3: "fold (\<lambda>j m. fold (fill_cell str1 str2 j) [1..<?n + 1] m) [1..<?m + 1]
        (mat_of (part str1 str2 0 0) (Suc ?m) (Suc ?n))
      = mat_of (part str1 str2 ?m ?n) (Suc ?m) (Suc ?n)"
    using fill_rows [of ?m "Suc ?m" str1 str2 ?n] by simp
  have "levenshteinDistance str1 str2 = mat_of (part str1 str2 ?m ?n) (Suc ?m) (Suc ?n) ! ?m ! ?n"
    unfolding levenshteinDistance_def Let_def m0 m1 m2 m3 ..
  then show ?thesis by (simp add: mat_of_nth part_def)
qed

section \<open>The claims\<close>

text \<open>
  C2. For every email address the risk level of the local result is read off its score:
  65 or more is \<open>Invalid\<close>, otherwise 35 or more is \<open>Risky\<close>, otherwise \<open>Safe\<close>, and
  \<open>isSpam\<close> holds exactly when the score is above 35. For every URL, 60 or more is
  \<open>UrlDangerous\<close>, otherwise 30 or more is \<open>UrlSuspicious\<close>, otherwise \<open>UrlSafe\<close>, and
  \<open>isSafe\<close> holds exactly when the score is below 30. The two early returns (an address
  without its parts, a URL that does not parse) carry the score 100 and obey the same
  thresholds.
\<close>

theorem risk_band_thresholds:
  "riskLevel (performLocalSpamDetection em)
     = (if spamScore (performLocalSpamDetection em) \<ge> 65 then Invalid
        else if spamScore (performLocalSpamDetection em) \<ge> 35 then Risky else Safe)
   \<and> isSpam (performLocalSpamDetection em) = (spamScore (performLocalSpamDetection em) > 35)
   \<and> url_riskLevel (performLocalURLAnalysis parse u)
     = (if riskScore (performLocalURLAnalysis parse u) \<ge> 60 then UrlDangerous
        else if riskScore (performLocalURLAnalysis parse u) \<ge> 30 then UrlSuspicious else UrlSafe)
   \<and> isSafe (performLocalURLAnalysis parse u) = (riskScore (performLocalURLAnalysis parse u) < 30)"
proof -
  have e: "riskLevel (performLocalSpamDetection em)
     = (if spamScore (performLocalSpamDetection em) \<ge> 65 then Invalid
        else if spamScore (performLocalSpamDetection em) \<ge> 35 then Risky else Safe)
   \<and> isSpam (performLocalSpamDetection em) = (spamScore (performLocalSpamDetection em) > 35)"
    by (auto simp: performLocalSpamDetection_def invalid_email_result_def scored_email_result_def
        email_level_of_def Let_def split: option.split)
  have w: "url_riskLevel (performLocalURLAnalysis parse u)
     = (if riskScore (performLocalURLAnalysis parse u) \<ge> 60 then UrlDangerous
        else if riskScore (performLocalURLAnalysis parse u) \<ge> 30 then UrlSuspicious else UrlSafe)
   \<and> isSafe (performLocalURLAnalysis parse u) = (riskScore (performLocalURLAnalysis parse u) < 30)"
    by (auto simp: performLocalURLAnalysis_def unparsed_url_result_def scored_url_result_def
        url_level_of_def Let_def split: option.split)
  from e w show ?thesis by simp
qed

theorem risk_band_thresholds_witness:
  "riskLevel (performLocalSpamDetection ''support-id-7193@service.amason.com'') = Invalid
   \<and> isSpam (performLocalSpamDetection ''support-id-7193@service.amason.com'')
   \<and> url_riskLevel (performLocalURLAnalysis example_parse ''https://best.com/'') = UrlSuspicious
   \<and> \<not> isSafe (performLocalURLAnalysis example_parse ''https://best.com/'')"
proof -
  have e: "spamScore (performLocalSpamDetection ''support-id-7193@service.amason.com'') = 100"
    by code_simp
  have u: "riskScore (performLocalURLAnalysis example_parse ''https://best.com/'') = 40"
    by code_simp
  show ?thesis
    using risk_band_thresholds
      [of "''support-id-7193@service.amason.com''" example_parse "''https://best.com/''"]
    by (simp add: e u)
qed

text \<open>
  C3. In both checkers the score of the local result lies between 0 and 100, and whenever
  the rules run (the address has its two parts, the URL parses) it is the smaller of 100
  and the sum of the weights added beside the indicators pushed, which are the indicators
  of the result in the order of the pushes. The two early returns, which run no rule, carry
  the score 100 beside their single indicator.
\<close>

theorem normalized_score_is_capped_sum:
  "0 \<le> spamScore (performLocalSpamDetection em) \<and> spamScore (performLocalSpamDetection em) \<le> 100
   \<and> 0 \<le> riskScore (performLocalURLAnalysis parse u)
   \<and> riskScore (performLocalURLAnalysis parse u) \<le> 100
   \<and> (email_parts em = Some (username, domain) \<longrightarrow>
        indicators (performLocalSpamDetection em)
          = map fst (acc_fired (run_rules (spam_rules em username domain)))
        \<and> spamScore (performLocalSpamDetection em)
          = min (sum_list (map snd (acc_fired (run_rules (spam_rules em username domain))))) 100)
   \<and> (parse u = Some urlObj \<longrightarrow>
        url_indicators (performLocalURLAnalysis parse u)
          = map fst (acc_fired (run_rules (url_rules u urlObj)))
        \<and> riskScore (performLocalURLAnalysis parse u)
          = min (sum_list (map snd (acc_fired (run_rules (url_rules u urlObj))))) 100)
   \<and> (email_parts em = None \<longrightarrow>
        indicators (performLocalSpamDetection em) = [InvalidEmailFormat]
        \<and> spamScore (performLocalSpamDetection em) = 100)
   \<and> (parse u = None \<longrightarrow>
        url_indicators (performLocalURLAnalysis parse u) = [InvalidUrlFormat]
        \<and> riskScore (performLocalURLAnalysis parse u) = 100)"
proof -
  have e: "0 \<le> spamScore (performLocalSpamDetection em)
           \<and> spamScore (performLocalSpamDetection em) \<le> 100"
    using email_rules_sound(3)
    by (simp add: performLocalSpamDetection_def invalid_email_result_def scored_email_result_def
        Let_def split: option.split)
  have w: "0 \<le> riskScore (performLocalURLAnalysis parse u)
           \<and> riskScore (performLocalURLAnalysis parse u) \<le> 100"
    using url_rules_sound(3)
    by (simp add: performLocalURLAnalysis_def unparsed_url_result_def scored_url_result_def
        Let_def split: option.split)
  have es: "email_parts em = Some (username, domain) \<longrightarrow>
        indicators (performLocalSpamDetection em)
          = map fst (acc_fired (run_rules (spam_rules em username domain)))
        \<and> spamScore (performLocalSpamDetection em)
          = min (sum_list (map snd (acc_fired (run_rules (spam_rules em username domain))))) 100"
    using email_rules_sound(1,2) [of em username domain]
    by (simp add: performLocalSpamDetection_def scored_email_result_def Let_def)
  have us: "parse u = Some urlObj \<longrightarrow>
        url_indicators (performLocalURLAnalysis parse u)
          = map fst (acc_fired (run_rules (url_rules u urlObj)))
        \<and> riskScore (performLocalURLAnalysis parse u)
          = min (sum_list (map snd (acc_fired (run_rules (url_rules u urlObj))))) 100"
    using url_rules_sound(1,2) [of u urlObj]
    by (simp add: performLocalURLAnalysis_def scored_url_result_def Let_def)
  have en: "email_parts em = None \<longrightarrow>
        indicators (performLocalSpamDetection em) = [InvalidEmailFormat]
        \<and> spamScore (performLocalSpamDetection em) = 100"
    by (simp add: performLocalSpamDetection_def invalid_email_result_def)
  have un: "parse u = None \<longrightarrow>
        url_indicators (performLocalURLAnalysis parse u) = [InvalidUrlFormat]
        \<and> riskScore (performLocalURLAnalysis parse u) = 100"
    by (simp add: performLocalURLAnalysis_def unparsed_url_result_def)
  from e w es us en un show ?thesis by blast
qed

theorem normalized_score_is_capped_sum_witness:
  "email_parts ''support-id-7193@service.amason.com''
     = Some (''support-id-7193'', ''service.amason.com'')
   \<and> map snd (acc_fired (run_rules (spam_rules ''support-id-7193@service.amason.com''
                                      ''support-id-7193'' ''service.amason.com''))) = [75, 55, 30]
   \<and> spamScore (performLocalSpamDetection ''support-id-7193@service.amason.com'') = 100
   \<and> example_parse ''https://best.com/'' = Some (https_page ''best.com'' ''/'')
   \<and> map snd (acc_fired (run_rules (url_rules ''https://best.com/''
                                      (https_page ''best.com'' ''/'')))) = [40]
   \<and> riskScore (performLocalURLAnalysis example_parse ''https://best.com/'') = 40"
proof -
  have p: "email_parts ''support-id-7193@service.amason.com''
             = Some (''support-id-7193'', ''service.amason.com'')"
    by code_simp
  have f: "map snd (acc_fired (run_rules (spam_rules ''support-id-7193@service.amason.com''
                                      ''support-id-7193'' ''service.amason.com''))) = [75, 55, 30]"
    by code_simp
  have q: "example_parse ''https://best.com/'' = Some (https_page ''best.com'' ''/'')"
    by code_simp
  have g: "map snd (acc_fired (run_rules (url_rules ''https://best.com/''
                                      (https_page ''best.com'' ''/'')))) = [40]"
    by code_simp
  show ?thesis
    using normalized_score_is_capped_sum
      [of "''support-id-7193@service.amason.com''" example_parse "''https://best.com/''"
          "''support-id-7193''" "''service.amason.com''" "https_page ''best.com'' ''/''"]
    by (simp add: p f q g)
qed

text \<open>
  C9. The local URL analysis returns a result for every string: either the constructor
  threw and the result is the fixed one of the \<^verbatim>\<open>catch\<close> branch, or the URL parsed and the
  result is the scored one; no path leaves the function with an error. When parsing
  fails the result has the score 100, the level \<open>UrlDangerous\<close>, \<open>isSafe\<close> false and the
  single indicator that the URL could not be parsed.
\<close>

theorem url_analysis_total_and_severe_on_parse_failure:
  "(performLocalURLAnalysis parse u = unparsed_url_result u
      \<or> (\<exists>urlObj. parse u = Some urlObj
            \<and> performLocalURLAnalysis parse u = scored_url_result u urlObj))
   \<and> (parse u = None \<longrightarrow>
        riskScore (performLocalURLAnalysis parse u) = 100
        \<and> url_riskLevel (performLocalURLAnalysis parse u) = UrlDangerous
        \<and> \<not> isSafe (performLocalURLAnalysis parse u)
        \<and> url_indicators (performLocalURLAnalysis parse u) = [InvalidUrlFormat])"
  by (cases "parse u") (simp_all add: performLocalURLAnalysis_def unparsed_url_result_def)

theorem url_analysis_total_and_severe_on_parse_failure_witness:
  "example_parse ''http://'' = None
   \<and> riskScore (performLocalURLAnalysis example_parse ''http://'') = 100
   \<and> url_riskLevel (performLocalURLAnalysis example_parse ''http://'') = UrlDangerous
   \<and> \<not> isSafe (performLocalURLAnalysis example_parse ''http://'')
   \<and> url_indicators (performLocalURLAnalysis example_parse ''http://'') = [InvalidUrlFormat]"
proof -
  have p: "example_parse ''http://'' = None" by code_simp
  show ?thesis
    using url_analysis_total_and_severe_on_parse_failure [of example_parse "''http://''"] p
    by blast
qed

text \<open>
  C10. Shortener detection is substring containment. For a URL that parses, the resolver
  sets \<open>isShortened\<close>, and the local analysis pushes the shortener indicator with the
  weight 40 (once), exactly when the lower-cased host name contains some entry of the
  shortener list as a substring. The host \<^verbatim>\<open>best.com\<close> is not in the list, contains
  \<^verbatim>\<open>t.co\<close>, and gets both flags.
\<close>

theorem shortener_detection_is_substring:
  "parseURL net u = Some urlObj \<Longrightarrow>
     (isShortened (resolveURLRedirects net u)
        \<longleftrightarrow> (\<exists>shortener \<in> set urlShorteners. \<exists>before after.
               toLowerCase (hostname urlObj) = before @ shortener @ after))
   \<and> (UrlShortener \<in> set (url_indicators (performLocalURLAnalysis (parseURL net) u))
        \<longleftrightarrow> (\<exists>shortener \<in> set urlShorteners. \<exists>before after.
               toLowerCase (hostname urlObj) = before @ shortener @ after))
   \<and> filter (\<lambda>p. fst p = UrlShortener) (acc_fired (run_rules (url_rules u urlObj)))
        = (if \<exists>shortener \<in> set urlShorteners. \<exists>before after.
                 toLowerCase (hostname urlObj) = before @ shortener @ after
           then [(UrlShortener, 40)] else [])
   \<and> ''best.com'' \<notin> set urlShorteners
   \<and> (hostname urlObj = ''best.com'' \<longrightarrow>
        isShortened (resolveURLRedirects net u)
        \<and> UrlShortener \<in> set (url_indicators (performLocalURLAnalysis (parseURL net) u)))"
proof -
  assume p: "parseURL net u = Some urlObj"
  let ?sub = "\<exists>shortener \<in> set urlShorteners. \<exists>before after.
               toLowerCase (hostname urlObj) = before @ shortener @ after"
  have r: "isShortened (resolveURLRedirects net u) \<longleftrightarrow> ?sub"
    by (simp add: resolveURLRedirects_def p Let_def is_shortener_host_iff)
  have f: "filter (\<lambda>p. fst p = UrlShortener) (acc_fired (run_rules (url_rules u urlObj)))
             = (if ?sub then [(UrlShortener, 40)] else [])"
    by (simp add: url_fired_shortener shortener_output_def is_shortener_host_iff)
  have "UrlShortener \<in> set (url_indicators (performLocalURLAnalysis (parseURL net) u))
          \<longleftrightarrow> filter (\<lambda>p. fst p = UrlShortener) (acc_fired (run_rules (url_rules u urlObj))) \<noteq> []"
    by (force simp: performLocalURLAnalysis_def p scored_url_result_def Let_def url_rules_sound(1)
        filter_empty_conv)
  with f have s: "UrlShortener \<in> set (url_indicators (performLocalURLAnalysis (parseURL net) u))
          \<longleftrightarrow> ?sub"
    by simp
  have n: "''best.com'' \<notin> set urlShorteners"
    by (simp add: urlShorteners_def)
  have b: "hostname urlObj = ''best.com'' \<longrightarrow> ?sub"
  proof
    assume h: "hostname urlObj = ''best.com''"
    have "toLowerCase ''best.com'' = ''bes'' @ ''t.co'' @ ''m''" by code_simp
    moreover have "''t.co'' \<in> set urlShorteners" by (simp add: urlShorteners_def)
    ultimately show ?sub using h by metis
  qed
  from r s f n b show ?thesis by blast
qed


theorem shortener_detection_is_substring_witness:
  "parseURL cycle_network ''https://best.com/'' = Some (https_page ''best.com'' ''/'')
   \<and> ''best.com'' \<notin> set urlShorteners
   \<and> isShortened (resolveURLRedirects cycle_network ''https://best.com/'')
   \<and> UrlShortener
        \<in> set (url_indicators (performLocalURLAnalysis (parseURL cycle_network) ''https://best.com/''))"
proof -
  have p: "parseURL cycle_network ''https://best.com/'' = Some (https_page ''best.com'' ''/'')"
    by code_simp
  have h: "hostname (https_page ''best.com'' ''/'') = ''best.com''"
    by (simp add: https_page_def)
  show ?thesis
    using shortener_detection_is_substring [OF p] p h by blast
qed

text \<open>
  C4, as the claim states it, fails: when the page \<^verbatim>\<open>b\<close> redirects back to the first page
  \<^verbatim>\<open>a\<close>, the chain returned is \<^verbatim>\<open>[a, b]\<close>; the repeated URL \<^verbatim>\<open>a\<close> is not its last element.
\<close>

theorem cycle_repeated_url_not_last_counterexample:
  "head cycle_network ''https://b.example/'' = Response 302 (Some ''https://a.example/'')
   \<and> redirectChain (resolveURLRedirects cycle_network ''https://a.example/'')
        = [''https://a.example/'', ''https://b.example/'']
   \<and> last (redirectChain (resolveURLRedirects cycle_network ''https://a.example/''))
        \<noteq> ''https://a.example/''"
  by code_simp

text \<open>
  C4, amended. Let the loop request the pages \<open>u # pages\<close> one after another, each
  inside the budget and each answering with a redirect to the next, and let the last of
  them, still inside the budget, answer with a redirect to a URL that is already in the
  chain. Then the resolver stops there, without an error, and returns the chain
  \<open>u # pages\<close> as it stands: the repeated URL is not appended again, and the last element,
  which is the final URL, is the page whose redirect pointed back into the chain. For every
  resolution the returned chain is a sequence of followed redirects, it starts with the
  input, every URL occurs once in it and its last element is the final URL; and when the
  page at which the resolver stopped answers, inside the budget, with a redirect, the
  target of that redirect is in the chain.
\<close>

theorem cycle_stops_resolution:
  "(parseURL net u \<noteq> None \<and> visited net 0 (u # pages) \<and> distinct (u # pages)
      \<and> in_budget net (length pages) \<and> redirects_to net (last (u # pages)) target
      \<and> target \<in> set (u # pages)
    \<longrightarrow> redirectChain (resolveURLRedirects net u) = u # pages
        \<and> finalUrl (resolveURLRedirects net u) = last (u # pages))
   \<and> visited net 0 (redirectChain (resolveURLRedirects net u))
   \<and> distinct (redirectChain (resolveURLRedirects net u))
   \<and> hd (redirectChain (resolveURLRedirects net u)) = u
   \<and> finalUrl (resolveURLRedirects net u) = last (redirectChain (resolveURLRedirects net u))
   \<and> (parseURL net u \<noteq> None
        \<and> in_budget net (length (redirectChain (resolveURLRedirects net u)) - 1)
        \<and> redirects_to net (finalUrl (resolveURLRedirects net u)) again
      \<longrightarrow> again \<in> set (redirectChain (resolveURLRedirects net u)))"
proof -
  have stop: "parseURL net u \<noteq> None \<and> visited net 0 (u # pages) \<and> distinct (u # pages)
      \<and> in_budget net (length pages) \<and> redirects_to net (last (u # pages)) target
      \<and> target \<in> set (u # pages)
    \<longrightarrow> redirectChain (resolveURLRedirects net u) = u # pages
        \<and> finalUrl (resolveURLRedirects net u) = last (u # pages)"
  proof
    assume a: "parseURL net u \<noteq> None \<and> visited net 0 (u # pages) \<and> distinct (u # pages)
      \<and> in_budget net (length pages) \<and> redirects_to net (last (u # pages)) target
      \<and> target \<in> set (u # pages)"
    then have "follow_redirects net 0 u u [u]
         = follow_redirects net (length pages) (last (u # pages)) (last (u # pages)) (u # pages)"
      by (intro resolve_along) simp_all
    also have "\<dots> = (last (u # pages), u # pages)"
      using a by (intro follow_redirects_cycle [of net "length pages" _ target]) simp_all
    finally show "redirectChain (resolveURLRedirects net u) = u # pages
        \<and> finalUrl (resolveURLRedirects net u) = last (u # pages)"
      using a by (auto simp: resolveURLRedirects_def Let_def)
  qed
  have again: "parseURL net u \<noteq> None
        \<and> in_budget net (length (redirectChain (resolveURLRedirects net u)) - 1)
        \<and> redirects_to net (finalUrl (resolveURLRedirects net u)) again
      \<longrightarrow> again \<in> set (redirectChain (resolveURLRedirects net u))"
    using resolve_visited(2) [of net u again] by (simp add: resolve_facts(3))
  from stop again show ?thesis
    using resolve_visited(1) [of net u] resolve_facts(1,2,3) [of net u] by blast
qed

theorem cycle_stops_resolution_witness:
  "parseURL cycle_network ''https://a.example/'' \<noteq> None
   \<and> visited cycle_network 0 [''https://a.example/'', ''https://b.example/'']
   \<and> in_budget cycle_network 1
   \<and> redirects_to cycle_network ''https://b.example/'' ''https://a.example/''
   \<and> redirectChain (resolveURLRedirects cycle_network ''https://a.example/'')
        = [''https://a.example/'', ''https://b.example/'']
   \<and> finalUrl (resolveURLRedirects cycle_network ''https://a.example/'') = ''https://b.example/''"
proof -
  have p: "parseURL cycle_network ''https://a.example/'' \<noteq> None" by code_simp
  have v: "visited cycle_network 0 [''https://a.example/'', ''https://b.example/'']" by code_simp
  have b: "in_budget cycle_network 1" by code_simp
  have r: "redirects_to cycle_network ''https://b.example/'' ''https://a.example/''" by code_simp
  show ?thesis
    using cycle_stops_resolution
      [of cycle_network "''https://a.example/''" "[''https://b.example/'']" "''https://a.example/''"]
      p v b r
    by simp
qed




text \<open>
  C6, as the claim states it, fails for a short link that redirects: the route puts an
  indicator of its own in front of the list of the local analysis.
\<close>

theorem shortened_redirect_indicator_counterexample:
  "url_indicators (performLocalURLAnalysis (parseURL shortener_network)
      (finalUrl (resolveURLRedirects shortener_network ''https://bit.ly/abc123''))) = []
   \<and> url_indicators
        (POST_url shortener_network False True timing_out_model False ''https://bit.ly/abc123'')
      = [ShortenedRedirect ''https://example.com'']"
  by code_simp

text \<open>
  C6, amended. The indicators of the email answer are those of the local detection,
  unchanged and in order. The indicators of the URL answer are those of the local analysis,
  unchanged and in order, behind one entry "shortened URL redirects to the final URL"
  that the route puts in front when the input is flagged as shortened and the chain has
  more than one element. The redirect chain of the answer is the chain of the redirect
  step, which is the resolver's unless the route's timer won.
\<close>

theorem indicators_carried_into_result:
  "indicators (POST_email apiKey generate em) = indicators (performLocalSpamDetection em)
   \<and> url_indicators (POST_url net redirectDeadline apiKey generateU arbiterDeadline u)
     = (if isShortened (redirect_step net redirectDeadline u)
           \<and> length (redirectChain (redirect_step net redirectDeadline u)) > 1
        then ShortenedRedirect (finalUrl (redirect_step net redirectDeadline u))
               # url_indicators (performLocalURLAnalysis (parseURL net)
                                   (finalUrl (redirect_step net redirectDeadline u)))
        else url_indicators (performLocalURLAnalysis (parseURL net)
                               (finalUrl (redirect_step net redirectDeadline u))))
   \<and> url_redirectChain (POST_url net redirectDeadline apiKey generateU arbiterDeadline u)
     = Some (redirectChain (redirect_step net redirectDeadline u))
   \<and> (\<not> redirectDeadline \<longrightarrow> redirect_step net redirectDeadline u = resolveURLRedirects net u)"
  by (simp add: POST_email_indicators POST_url_fields local_step_fields redirect_step_def)

theorem indicators_carried_into_result_witness:
  "indicators (POST_email True failing_model ''support-id-7193@service.amason.com'')
     = [TyposquattingConfirmed ''service.amason.com'' ''amazon.com'',
        TyposquattingFuzzy ''amason'' ''amazon'' 1, ServiceIdPattern]
   \<and> url_redirectChain
        (POST_url shortener_network False True timing_out_model False ''https://bit.ly/abc123'')
      = Some (redirectChain (resolveURLRedirects shortener_network ''https://bit.ly/abc123''))"
proof -
  have i: "indicators (performLocalSpamDetection ''support-id-7193@service.amason.com'')
     = [TyposquattingConfirmed ''service.amason.com'' ''amazon.com'',
        TyposquattingFuzzy ''amason'' ''amazon'' 1, ServiceIdPattern]"
    by code_simp
  show ?thesis
    using indicators_carried_into_result
      [of True failing_model "''support-id-7193@service.amason.com''" shortener_network False
          timing_out_model False "''https://bit.ly/abc123''"]
    by (simp add: i)
qed


text \<open>
  C1, as the claim states it, fails: with an API key and a model call that is rejected, the
  verdict of the email answer is suspicious although the local level is safe, which the
  mapping sends to legitimate.
\<close>

theorem failed_arbitration_ignores_local_band_counterexample:
  "riskLevel (performLocalSpamDetection ''john@example.org'') = Safe
   \<and> local_email_verdict Safe = Legitimate
   \<and> failing_model ''john@example.org'' (performLocalSpamDetection ''john@example.org'')
        = (Rejected ''Error'' ''fetch failed'' :: email_verdict generated)
   \<and> geminiVerdict (POST_email True failing_model ''john@example.org'') = Some Suspicious
   \<and> riskLevel (POST_email True failing_model ''john@example.org'') = Risky"
  by code_simp

text \<open>
  C1, amended. When the model call of the email gateway is attempted and is rejected with
  an error, the gateway returns the fixed verdict suspicious with the text
  \<^verbatim>\<open>AI analysis encountered an error. Please try again.\<close>, whatever the local level;
  the answer then carries that text as reason, the level risky and the score 60. The local
  level is mapped to the verdict (invalid to fake, risky to suspicious, safe to legitimate;
  for URLs the level itself) when no API key is configured, in both routes; the answer
  then keeps the level, the score and the reason of the local analysis and says that the
  analysis is local only. The statement leaves open what the URL route answers with a key
  when the call fails.
\<close>

theorem failed_arbitration_verdict:
  "(generate em (performLocalSpamDetection em) = Rejected name msg \<longrightarrow>
      geminiVerdict (POST_email True generate em) = Some Suspicious
      \<and> reason (POST_email True generate em) = AnalysisErrorTryAgain
      \<and> aiAnalysis (POST_email True generate em) = Some AnalysisErrorTryAgain
      \<and> isSpam (POST_email True generate em)
      \<and> riskLevel (POST_email True generate em) = Risky
      \<and> spamScore (POST_email True generate em) = 60)
   \<and> geminiVerdict (POST_email False generate em)
        = Some (local_email_verdict (riskLevel (performLocalSpamDetection em)))
   \<and> riskLevel (POST_email False generate em) = riskLevel (performLocalSpamDetection em)
   \<and> spamScore (POST_email False generate em) = spamScore (performLocalSpamDetection em)
   \<and> reason (POST_email False generate em) = reason (performLocalSpamDetection em)
   \<and> aiAnalysis (POST_email False generate em) = Some KeyMissingLocalOnly
   \<and> local_email_verdict Invalid = Fake \<and> local_email_verdict Risky = Suspicious
   \<and> local_email_verdict Safe = Legitimate
   \<and> url_geminiVerdict (POST_url net redirectDeadline False generateU arbiterDeadline u)
        = Some (url_riskLevel (performLocalURLAnalysis (parseURL net)
                                 (finalUrl (redirect_step net redirectDeadline u))))
   \<and> url_riskLevel (POST_url net redirectDeadline False generateU arbiterDeadline u)
        = url_riskLevel (performLocalURLAnalysis (parseURL net)
                           (finalUrl (redirect_step net redirectDeadline u)))
   \<and> riskScore (POST_url net redirectDeadline False generateU arbiterDeadline u)
        = riskScore (performLocalURLAnalysis (parseURL net)
                       (finalUrl (redirect_step net redirectDeadline u)))
   \<and> url_reason (POST_url net redirectDeadline False generateU arbiterDeadline u)
        = url_reason (performLocalURLAnalysis (parseURL net)
                        (finalUrl (redirect_step net redirectDeadline u)))
   \<and> url_aiAnalysis (POST_url net redirectDeadline False generateU arbiterDeadline u)
        = Some KeyMissingLocalOnly"
  by (simp add: POST_email_def POST_url_def Let_def assemble_email_def
      getGeminiAnalysis_def local_email_verdict_def local_step_fields)

theorem failed_arbitration_verdict_witness:
  "failing_model ''john@example.org'' (performLocalSpamDetection ''john@example.org'')
     = (Rejected ''Error'' ''fetch failed'' :: email_verdict generated)
   \<and> riskLevel (performLocalSpamDetection ''john@example.org'') = Safe
   \<and> geminiVerdict (POST_email True failing_model ''john@example.org'') = Some Suspicious
   \<and> reason (POST_email True failing_model ''john@example.org'') = AnalysisErrorTryAgain
   \<and> spamScore (POST_email True failing_model ''john@example.org'') = 60
   \<and> geminiVerdict (POST_email False failing_model ''john@example.org'') = Some Legitimate
   \<and> url_geminiVerdict (POST_url cycle_network False False failing_model False ''https://best.com/'')
        = Some UrlSuspicious
   \<and> url_geminiVerdict (POST_url cycle_network False False failing_model False ''https://example.com'')
        = Some UrlSafe"
proof -
  have f: "failing_model x y = (Rejected ''Error'' ''fetch failed'' :: 'v generated)" for x :: string and y :: 'r
    by (simp add: failing_model_def)
  have l: "riskLevel (performLocalSpamDetection ''john@example.org'') = Safe"
    by code_simp
  have b: "finalUrl (redirect_step cycle_network False ''https://best.com/'') = ''https://best.com/''"
    by code_simp
  have e: "finalUrl (redirect_step cycle_network False ''https://example.com'') = ''https://example.com''"
    by code_simp
  have p: "parseURL cycle_network = example_parse"
    by (simp add: cycle_network_def)
  have bl: "url_riskLevel (performLocalURLAnalysis example_parse ''https://best.com/'') = UrlSuspicious"
    by code_simp
  have el: "url_riskLevel (performLocalURLAnalysis example_parse ''https://example.com'') = UrlSafe"
    by code_simp
  show ?thesis
    using failed_arbitration_verdict
        [of failing_model "''john@example.org''" "''Error''" "''fetch failed''"
            cycle_network False failing_model False "''https://best.com/''"]
      failed_arbitration_verdict
        [of failing_model "''john@example.org''" "''Error''" "''fetch failed''"
            cycle_network False failing_model False "''https://example.com''"]
    by (simp add: f l b e p bl el)
qed

text \<open>
  C5, as the claim states it, fails: the address \<^verbatim>\<open>a@b@\<close> split at its last \<^verbatim>\<open>@\<close> has an
  empty domain, yet the detector runs its rules on it (user name \<^verbatim>\<open>a\<close>, domain \<^verbatim>\<open>b\<close>) and
  returns the score 20.
\<close>

theorem email_last_at_split_counterexample:
  "split_at_last CHR ''@'' (toLowerCase ''a@b@'') = Some (''a@b'', [])
   \<and> indicators (performLocalSpamDetection ''a@b@'') = [ShortUsername]
   \<and> spamScore (performLocalSpamDetection ''a@b@'') = 20
   \<and> riskLevel (performLocalSpamDetection ''a@b@'') = Safe
   \<and> \<not> isSpam (performLocalSpamDetection ''a@b@'')"
  by code_simp

text \<open>
  C5, amended. The detector lower-cases the address, splits it at every \<^verbatim>\<open>@\<close> and takes
  the first two pieces as user name and domain. Whenever one of the two is missing or
  empty it returns at once, without running a rule: score 100, level \<open>Invalid\<close>, \<open>isSpam\<close>
  true, and the one indicator that the format is invalid. For an address with exactly one
  \<^verbatim>\<open>@\<close> the two pieces are the parts before and after its last \<^verbatim>\<open>@\<close>.
\<close>

theorem invalid_format_short_circuit:
  "(length (split_on CHR ''@'' (toLowerCase em)) < 2
      \<or> split_on CHR ''@'' (toLowerCase em) ! 0 = []
      \<or> split_on CHR ''@'' (toLowerCase em) ! 1 = []
    \<longrightarrow> performLocalSpamDetection em
          = \<lparr>email = em, isSpam = True, riskLevel = Invalid, spamScore = 100,
             indicators = [InvalidEmailFormat], reason = EmailFormatInvalid,
             aiAnalysis = None, geminiVerdict = None\<rparr>)
   \<and> (count_char CHR ''@'' em = 1 \<longrightarrow>
        (\<exists>localPart domain.
           split_at_last CHR ''@'' (toLowerCase em) = Some (localPart, domain)
           \<and> split_on CHR ''@'' (toLowerCase em) = [localPart, domain]))"
proof -
  have a: "length (split_on CHR ''@'' (toLowerCase em)) < 2
      \<or> split_on CHR ''@'' (toLowerCase em) ! 0 = []
      \<or> split_on CHR ''@'' (toLowerCase em) ! 1 = []
    \<longrightarrow> email_parts em = None"
    by (cases "split_on CHR ''@'' (toLowerCase em)";
        cases "tl (split_on CHR ''@'' (toLowerCase em))")
       (auto simp: email_parts_def)
  have b: "email_parts em = None \<longrightarrow> performLocalSpamDetection em
          = \<lparr>email = em, isSpam = True, riskLevel = Invalid, spamScore = 100,
             indicators = [InvalidEmailFormat], reason = EmailFormatInvalid,
             aiAnalysis = None, geminiVerdict = None\<rparr>"
    by (simp add: performLocalSpamDetection_def invalid_email_result_def)
  have c: "count_char CHR ''@'' em = 1 \<longrightarrow>
        (\<exists>localPart domain.
           split_at_last CHR ''@'' (toLowerCase em) = Some (localPart, domain)
           \<and> split_on CHR ''@'' (toLowerCase em) = [localPart, domain])"
    using split_single_separator [of "CHR ''@''" "toLowerCase em"]
    by (auto simp: count_at_toLowerCase)
  from a b c show ?thesis by blast
qed

theorem invalid_format_short_circuit_witness:
  "split_on CHR ''@'' (toLowerCase ''a@@b.com'') ! 1 = []
   \<and> performLocalSpamDetection ''a@@b.com''
       = \<lparr>email = ''a@@b.com'', isSpam = True, riskLevel = Invalid, spamScore = 100,
          indicators = [InvalidEmailFormat], reason = EmailFormatInvalid,
          aiAnalysis = None, geminiVerdict = None\<rparr>
   \<and> count_char CHR ''@'' ''John@Example.org'' = 1
   \<and> split_at_last CHR ''@'' (toLowerCase ''John@Example.org'') = Some (''john'', ''example.org'')
   \<and> split_on CHR ''@'' (toLowerCase ''John@Example.org'') = [''john'', ''example.org'']"
proof -
  have e: "split_on CHR ''@'' (toLowerCase ''a@@b.com'') ! 1 = []" by code_simp
  have c: "count_char CHR ''@'' ''John@Example.org'' = 1" by code_simp
  have s: "split_on CHR ''@'' (toLowerCase ''John@Example.org'') = [''john'', ''example.org'']"
    by code_simp
  show ?thesis
    using invalid_format_short_circuit [of "''a@@b.com''"]
      invalid_format_short_circuit [of "''John@Example.org''"] e c s
    by auto
qed

text \<open>
  C7. For an address with its two parts, the fuzzy brand indicator is among the indicators
  exactly when the candidate name (the first label of the base domain) has four characters
  or more and its distance \<open>levenshteinDistance\<close> to the name of some brand of the table is
  1 or 2. There is at most one such indicator: the one for the first brand, in the order
  of the table, that passes the test. Its weight is 55, so when it is present the score is
  55 or more and the level is not \<open>Safe\<close>. For \<^verbatim>\<open>support-id-7193@service.amason.com\<close> the
  indicator names \<^verbatim>\<open>amason\<close> and \<^verbatim>\<open>amazon\<close> at distance 1. The distance the matrix
  loops of \<open>levenshteinDistance\<close> compute is the Levenshtein distance \<open>lev_prefix\<close> of the
  two whole strings.
\<close>

theorem fuzzy_brand_match:
  assumes parts: "email_parts em = Some (username, domain)"
  shows
  "((\<exists>i \<in> set (indicators (performLocalSpamDetection em)). is_fuzzy i)
      \<longleftrightarrow> (4 \<le> length (candidate_name domain)
           \<and> (\<exists>entry \<in> set trustedBrands.
                 1 \<le> levenshteinDistance (candidate_name domain) (brand_name (fst entry))
                 \<and> levenshteinDistance (candidate_name domain) (brand_name (fst entry)) \<le> 2)))
   \<and> length (filter is_fuzzy (indicators (performLocalSpamDetection em))) \<le> 1
   \<and> filter is_fuzzy (indicators (performLocalSpamDetection em))
        = (case find (\<lambda>entry. fuzzy_hit (candidate_name domain) (brand_name (fst entry)))
                  trustedBrands of
             None \<Rightarrow> []
           | Some entry \<Rightarrow>
               [TyposquattingFuzzy (candidate_name domain) (brand_name (fst entry))
                  (levenshteinDistance (candidate_name domain) (brand_name (fst entry)))])
   \<and> (\<forall>p \<in> set (acc_fired (run_rules (spam_rules em username domain))).
         is_fuzzy (fst p) \<longrightarrow> snd p = 55)
   \<and> ((\<exists>i \<in> set (indicators (performLocalSpamDetection em)). is_fuzzy i)
        \<longrightarrow> 55 \<le> spamScore (performLocalSpamDetection em)
            \<and> riskLevel (performLocalSpamDetection em) \<noteq> Safe)
   \<and> TyposquattingFuzzy ''amason'' ''amazon'' 1
        \<in> set (indicators (performLocalSpamDetection ''support-id-7193@service.amason.com''))
   \<and> 55 \<le> spamScore (performLocalSpamDetection ''support-id-7193@service.amason.com'')
   \<and> riskLevel (performLocalSpamDetection ''support-id-7193@service.amason.com'') \<noteq> Safe
   \<and> levenshteinDistance str1 str2 = lev_prefix str1 str2 (length str1) (length str2)"
proof -
  let ?r = "performLocalSpamDetection em"
  let ?a = "run_rules (spam_rules em username domain)"
  let ?name = "candidate_name domain"
  let ?hit = "\<lambda>entry. fuzzy_hit ?name (brand_name (fst entry))"
  have ind: "indicators ?r = acc_indicators ?a"
    and sc: "spamScore ?r = min (acc_score ?a) 100"
    and lv: "riskLevel ?r = email_level_of (min (acc_score ?a) 100)"
    by (simp_all add: performLocalSpamDetection_def parts scored_email_result_def Let_def)
  have out: "fuzzy_output ?name trustedBrands
      = (case find ?hit trustedBrands of
           None \<Rightarrow> []
         | Some entry \<Rightarrow>
             [(TyposquattingFuzzy ?name (brand_name (fst entry))
                 (levenshteinDistance ?name (brand_name (fst entry))), 55)])"
    by (simp add: fuzzy_output_def first_fuzzy_find split: option.split)
  have third: "filter is_fuzzy (indicators ?r)
      = (case find ?hit trustedBrands of
           None \<Rightarrow> []
         | Some entry \<Rightarrow>
             [TyposquattingFuzzy ?name (brand_name (fst entry))
                (levenshteinDistance ?name (brand_name (fst entry)))])"
    by (simp add: ind email_fuzzy_facts(1) out split: option.split)
  have second: "length (filter is_fuzzy (indicators ?r)) \<le> 1"
    by (simp add: third split: option.split)
  have ex: "(\<exists>i \<in> set (indicators ?r). is_fuzzy i) \<longleftrightarrow> find ?hit trustedBrands \<noteq> None"
  proof -
    have "(\<exists>i \<in> set (indicators ?r). is_fuzzy i) \<longleftrightarrow> filter is_fuzzy (indicators ?r) \<noteq> []"
      by (simp add: filter_empty_conv)
    also have "\<dots> \<longleftrightarrow> find ?hit trustedBrands \<noteq> None"
      by (simp add: third split: option.split)
    finally show ?thesis .
  qed
  have first: "(\<exists>i \<in> set (indicators ?r). is_fuzzy i)
      \<longleftrightarrow> (4 \<le> length ?name
           \<and> (\<exists>entry \<in> set trustedBrands.
                 1 \<le> levenshteinDistance ?name (brand_name (fst entry))
                 \<and> levenshteinDistance ?name (brand_name (fst entry)) \<le> 2))"
    unfolding ex find_None_iff by (force simp: fuzzy_hit_def Let_def Suc_le_eq)
  have fourth: "\<forall>p \<in> set (acc_fired ?a). is_fuzzy (fst p) \<longrightarrow> snd p = 55"
  proof
    fix p assume "p \<in> set (acc_fired ?a)"
    show "is_fuzzy (fst p) \<longrightarrow> snd p = 55"
    proof
      assume "is_fuzzy (fst p)"
      with \<open>p \<in> set (acc_fired ?a)\<close>
      have "p \<in> set (filter (\<lambda>p. is_fuzzy (fst p)) (acc_fired ?a))" by simp
      then have "p \<in> set (fuzzy_output ?name trustedBrands)"
        by (simp only: email_fuzzy_facts(2))
      then show "snd p = 55"
        by (auto simp: fuzzy_output_def split: option.splits)
    qed
  qed
  have fifth: "(\<exists>i \<in> set (indicators ?r). is_fuzzy i)
        \<longrightarrow> 55 \<le> spamScore ?r \<and> riskLevel ?r \<noteq> Safe"
  proof
    assume "\<exists>i \<in> set (indicators ?r). is_fuzzy i"
    then have "fuzzy_output ?name trustedBrands \<noteq> []"
      unfolding ex by (simp add: out split: option.split)
    then have "55 \<le> acc_score ?a" by (rule email_fuzzy_facts(3))
    then show "55 \<le> spamScore ?r \<and> riskLevel ?r \<noteq> Safe"
      by (simp add: sc lv email_level_of_def Let_def)
  qed
  have example:
    "TyposquattingFuzzy ''amason'' ''amazon'' 1
        \<in> set (indicators (performLocalSpamDetection ''support-id-7193@service.amason.com''))
     \<and> 55 \<le> spamScore (performLocalSpamDetection ''support-id-7193@service.amason.com'')
     \<and> riskLevel (performLocalSpamDetection ''support-id-7193@service.amason.com'') \<noteq> Safe"
    by code_simp
  note distance = levenshteinDistance_lev_prefix [of str1 str2]
  from first second third fourth fifth example distance show ?thesis by blast
qed

theorem fuzzy_brand_match_witness:
  "email_parts ''support-id-7193@service.amason.com''
     = Some (''support-id-7193'', ''service.amason.com'')
   \<and> candidate_name ''service.amason.com'' = ''amason''
   \<and> filter is_fuzzy (indicators (performLocalSpamDetection ''support-id-7193@service.amason.com''))
        = [TyposquattingFuzzy ''amason'' ''amazon'' 1]
   \<and> 55 \<le> spamScore (performLocalSpamDetection ''support-id-7193@service.amason.com'')
   \<and> riskLevel (performLocalSpamDetection ''support-id-7193@service.amason.com'') \<noteq> Safe"
proof -
  have p: "email_parts ''support-id-7193@service.amason.com''
     = Some (''support-id-7193'', ''service.amason.com'')"
    by code_simp
  have n: "candidate_name ''service.amason.com'' = ''amason''"
    by code_simp
  have f: "find (\<lambda>entry. fuzzy_hit ''amason'' (brand_name (fst entry))) trustedBrands
             = Some (''amazon.com'', [''amason.com'', ''amzaon.com'', ''amazn.com'', ''ammozon.com'',
                        ''anazon.com'', ''amazom.com''])"
    by code_simp
  have b: "brand_name ''amazon.com'' = ''amazon''" by code_simp
  have l: "levenshteinDistance ''amason'' ''amazon'' = 1" by code_simp
  show ?thesis
    using fuzzy_brand_match [OF p, of "''amason''" "''amazon''"] by (simp add: p n f b l)
qed

end
